theory Spec2Isabelle
  imports Main "HOL-Library.Char_ord" "HOL-Library.List_Lexorder"
begin

section \<open>API version lifecycle service (APIVersioningService)\<close>

text \<open>
  The service of \<^verbatim>\<open>src/unnamed/part_003\<close> keeps API version records in a DynamoDB table
  keyed by (apiId, version), specifications in S3, lifecycle policies and migration plans in
  two further tables. The model passes these stores explicitly as a state record; every
  \<^verbatim>\<open>throw\<close> of the source is a value \<open>Inl e\<close> of the result. JavaScript numbers that the
  service uses as counters, limits and timestamps are integers, and an ISO timestamp is represented by its time value in milliseconds. The reading of the
  clock is the parameter \<open>now\<close> of an operation, the same for every read during one call.
  The logger, the deprecation notification and the removal of the deployment only write log
  lines in the source and change no store.
\<close>

subsection \<open>Strings\<close>

text \<open>
  A string is the list of the bytes of its UTF-8 encoding. \<open>js_length\<close> is the \<^verbatim>\<open>length\<close> of
  the JavaScript string, its number of UTF-16 code units: one for each character, and two
  for a character encoded in four bytes. \<open>trim\<close> is \<^verbatim>\<open>String.prototype.trim\<close>: it removes
  the white space and line terminators of ECMAScript from both ends.
\<close>

definition js_length :: "string \<Rightarrow> nat" where
  "js_length s =
     length (filter (\<lambda>c. \<not> (128 \<le> (of_char c :: int) \<and> (of_char c :: int) < 192)) s)
     + length (filter (\<lambda>c. 240 \<le> (of_char c :: int)) s)"

definition white_space :: "string list" where
  \<comment> \<open>U+0009 to U+000D, U+0020, U+00A0, U+1680, U+2000 to U+200A, U+2028, U+2029, U+202F,
      U+205F, U+3000 and U+FEFF\<close>
  "white_space =
     [[CHR 0x09], [CHR 0x0A], [CHR 0x0B], [CHR 0x0C], [CHR 0x0D], [CHR 0x20],
      [CHR 0xC2, CHR 0xA0],
      [CHR 0xE1, CHR 0x9A, CHR 0x80],
      [CHR 0xE2, CHR 0x80, CHR 0x80], [CHR 0xE2, CHR 0x80, CHR 0x81],
      [CHR 0xE2, CHR 0x80, CHR 0x82], [CHR 0xE2, CHR 0x80, CHR 0x83],
      [CHR 0xE2, CHR 0x80, CHR 0x84], [CHR 0xE2, CHR 0x80, CHR 0x85],
      [CHR 0xE2, CHR 0x80, CHR 0x86], [CHR 0xE2, CHR 0x80, CHR 0x87],
      [CHR 0xE2, CHR 0x80, CHR 0x88], [CHR 0xE2, CHR 0x80, CHR 0x89],
      [CHR 0xE2, CHR 0x80, CHR 0x8A],
      [CHR 0xE2, CHR 0x80, CHR 0xA8], [CHR 0xE2, CHR 0x80, CHR 0xA9],
      [CHR 0xE2, CHR 0x80, CHR 0xAF],
      [CHR 0xE2, CHR 0x81, CHR 0x9F],
      [CHR 0xE3, CHR 0x80, CHR 0x80],
      [CHR 0xEF, CHR 0xBB, CHR 0xBF]]"

function strip_leading :: "string list \<Rightarrow> string \<Rightarrow> string" where
  "strip_leading ws s =
     (case find (\<lambda>w. w \<noteq> [] \<and> take (length w) s = w) ws of
        None \<Rightarrow> s
      | Some w \<Rightarrow> strip_leading ws (drop (length w) s))"
  by pat_completeness auto
termination
proof (relation "measure (\<lambda>(ws, s). length s)")
  show "wf (measure (\<lambda>(ws, s). length s))" by simp
next
  fix ws :: "string list" and s w :: string
  assume "find (\<lambda>w. w \<noteq> [] \<and> take (length w) s = w) ws = Some w"
  then have w: "w \<noteq> []" "take (length w) s = w" by (auto simp: find_Some_iff)
  from w(2) have "length w \<le> length s"
    using length_take[of "length w" s] by simp
  with w(1) show "((ws, drop (length w) s), (ws, s)) \<in> measure (\<lambda>(ws, s). length s)"
    by (cases w) auto
qed

declare strip_leading.simps [simp del]

definition trim :: "string \<Rightarrow> string" where
  "trim s = rev (strip_leading (map rev white_space) (rev (strip_leading white_space s)))"

definition is_digit :: "char \<Rightarrow> bool" where
  "is_digit c = (c \<in> set ''0123456789'')"

definition is_letter :: "char \<Rightarrow> bool" where
  "is_letter c = (c \<in> set ''abcdefghijklmnopqrstuvwxyzABCDEFGHIJKLMNOPQRSTUVWXYZ'')"

fun split_on :: "char \<Rightarrow> string \<Rightarrow> string list" where
  "split_on c [] = [[]]"
| "split_on c (x # xs) =
     (if x = c then [] # split_on c xs
      else (case split_on c xs of [] \<Rightarrow> [[x]] | w # ws \<Rightarrow> (x # w) # ws))"

definition digit_val :: "char \<Rightarrow> int" where
  "digit_val c = of_char c - 48"

definition str_to_int :: "string \<Rightarrow> int" where
  \<comment> \<open>the value of a string of decimal digits\<close>
  "str_to_int s = foldl (\<lambda>n c. 10 * n + digit_val c) 0 s"

definition digit_char :: "int \<Rightarrow> char" where
  "digit_char d = char_of (48 + d)"

function digits :: "int \<Rightarrow> string" where
  "digits n = (if n < 10 then [digit_char n] else digits (n div 10) @ [digit_char (n mod 10)])"
  by pat_completeness auto
termination
  by (relation "measure nat") auto

declare digits.simps [simp del]

definition int_to_str :: "int \<Rightarrow> string" where
  \<comment> \<open>the decimal numeral of an integer, as \<^verbatim>\<open>String(n)\<close> writes it\<close>
  "int_to_str n = (if n < 0 then CHR ''-'' # digits (- n) else digits n)"

definition nat_to_str :: "nat \<Rightarrow> string" where
  "nat_to_str n = digits (int n)"

text \<open>
  \<^verbatim>\<open>String.prototype.toUpperCase\<close> applies the case mapping of Unicode, a table that is not
  part of the sources: the analyzer below takes the function as its parameter
  \<open>toUpperCase\<close>, and every statement about it holds for every such function.
  \<open>asciiUpperCase\<close>, which agrees with it on ASCII strings, is used in the examples.
\<close>

definition asciiUpperCase :: "string \<Rightarrow> string" where
  "asciiUpperCase s =
     map (\<lambda>c. if 97 \<le> (of_char c :: int) \<and> (of_char c :: int) \<le> 122
               then char_of (of_char c - 32 :: int) else c) s"

subsection \<open>Semantic-version syntax\<close>

text \<open>
  The "valid semantic-version syntax" of the spec, which is the grammar of Semantic
  Versioning 2.0.0: three numeric identifiers separated by dots; then, optionally, a hyphen
  and dot-separated prerelease identifiers; then, optionally, a plus sign and dot-separated
  build identifiers. A numeric identifier is \<^verbatim>\<open>0\<close> or digits without a leading zero; a
  prerelease identifier is a numeric identifier or a non-empty string of letters, digits
  and hyphens that has a non-digit; a build identifier is a non-empty string of letters,
  digits and hyphens.
\<close>

definition numeric_identifier :: "string \<Rightarrow> bool" where
  \<comment> \<open>\<^verbatim>\<open>0|[1-9]\d*\<close>\<close>
  "numeric_identifier s = (s \<noteq> [] \<and> list_all is_digit s \<and> (s = ''0'' \<or> hd s \<noteq> CHR ''0''))"

definition build_identifier :: "string \<Rightarrow> bool" where
  \<comment> \<open>\<^verbatim>\<open>[a-zA-Z0-9-]+\<close>\<close>
  "build_identifier s = (s \<noteq> [] \<and> list_all (\<lambda>c. is_digit c \<or> is_letter c \<or> c = CHR ''-'') s)"

definition prerelease_identifier :: "string \<Rightarrow> bool" where
  \<comment> \<open>\<^verbatim>\<open>0|[1-9]\d*|\d*[a-zA-Z-][a-zA-Z0-9-]*\<close>\<close>
  "prerelease_identifier s = (build_identifier s \<and> (list_all is_digit s \<longrightarrow> numeric_identifier s))"

definition numbers_of :: "string \<Rightarrow> string list" where
  \<comment> \<open>the dot-separated parts before the first hyphen or plus sign\<close>
  "numbers_of s =
     split_on (CHR ''.'') (takeWhile (\<lambda>c. c \<noteq> CHR ''-'') (takeWhile (\<lambda>c. c \<noteq> CHR ''+'') s))"

definition prerelease_of :: "string \<Rightarrow> string list" where
  \<comment> \<open>the dot-separated parts between the first hyphen and the plus sign\<close>
  "prerelease_of s =
     (let pre = dropWhile (\<lambda>c. c \<noteq> CHR ''-'') (takeWhile (\<lambda>c. c \<noteq> CHR ''+'') s)
      in if pre = [] then [] else split_on (CHR ''.'') (tl pre))"

definition build_of :: "string \<Rightarrow> string list" where
  \<comment> \<open>the dot-separated parts after the first plus sign\<close>
  "build_of s =
     (let bld = dropWhile (\<lambda>c. c \<noteq> CHR ''+'') s
      in if bld = [] then [] else split_on (CHR ''.'') (tl bld))"

definition spec_semver_syntax :: "string \<Rightarrow> bool" where
  "spec_semver_syntax s =
     (length (numbers_of s) = 3
      \<and> list_all numeric_identifier (numbers_of s)
      \<and> list_all prerelease_identifier (prerelease_of s)
      \<and> list_all build_identifier (build_of s))"

subsection \<open>The semver package\<close>

text \<open>
  Modelled from the spec: the \<^verbatim>\<open>semver\<close> package, which the service imports and which is
  not part of the sources. The spec speaks of "valid semantic-version syntax",
  "semantic-version precedence" and "standard semantic-version diff classification"; the
  definitions below follow the package. Its parser accepts a string of at most 256
  characters that, once trimmed and without one leading \<^verbatim>\<open>v\<close>, has the syntax above with
  numbers up to \<^verbatim>\<open>Number.MAX_SAFE_INTEGER\<close>. Its \<^verbatim>\<open>compare\<close> orders by the main version and
  then by the prerelease identifiers, and ignores build metadata. Its \<^verbatim>\<open>diff\<close> is the one
  version 7.5 and later compute (on versions without prerelease identifiers every version
  of the package gives the first of major, minor and patch in which the two differ).
  Numeric prerelease identifiers are compared as integers.
\<close>

datatype pre_id = NumId int | StrId string

record SemVer =
  major :: int
  minor :: int
  patch :: int
  prerelease :: "pre_id list"
  build :: "string list"

definition MAX_SAFE_INTEGER :: int where
  "MAX_SAFE_INTEGER = 9007199254740991"

definition MAX_LENGTH :: nat where
  "MAX_LENGTH = 256"

definition strip_v :: "string \<Rightarrow> string" where
  \<comment> \<open>the optional \<^verbatim>\<open>v\<close> that the grammar of the package allows in front\<close>
  "strip_v s = (case s of [] \<Rightarrow> s | c # cs \<Rightarrow> if c = CHR ''v'' then cs else s)"

definition to_identifier :: "string \<Rightarrow> pre_id" where
  "to_identifier s = (if list_all is_digit s then NumId (str_to_int s) else StrId s)"

definition semver_parse :: "string \<Rightarrow> SemVer option" where
  "semver_parse version =
     (if js_length version > MAX_LENGTH then None
      else
        let s = strip_v (trim version) in
        if spec_semver_syntax s \<and> list_all (\<lambda>n. str_to_int n \<le> MAX_SAFE_INTEGER) (numbers_of s)
        then (case numbers_of s of
                [a, b, c] \<Rightarrow>
                  Some \<lparr>major = str_to_int a, minor = str_to_int b, patch = str_to_int c,
                        prerelease = map to_identifier (prerelease_of s), build = build_of s\<rparr>
              | _ \<Rightarrow> None)
        else None)"

definition semver_valid :: "string \<Rightarrow> bool" where
  \<comment> \<open>\<^verbatim>\<open>semver.valid(v)\<close> is the parsed version or null; the service tests its truthiness\<close>
  "semver_valid version = (semver_parse version \<noteq> None)"

definition compareNumbers :: "int \<Rightarrow> int \<Rightarrow> int" where
  "compareNumbers a b = (if a = b then 0 else if a < b then -1 else 1)"

fun compareIdentifiers :: "pre_id \<Rightarrow> pre_id \<Rightarrow> int" where
  "compareIdentifiers (NumId a) (NumId b) = compareNumbers a b"
| "compareIdentifiers (NumId a) (StrId b) = -1"
| "compareIdentifiers (StrId a) (NumId b) = 1"
| "compareIdentifiers (StrId a) (StrId b) = (if a = b then 0 else if a < b then -1 else 1)"

definition compareMain :: "SemVer \<Rightarrow> SemVer \<Rightarrow> int" where
  "compareMain x y =
     (if compareNumbers (major x) (major y) \<noteq> 0 then compareNumbers (major x) (major y)
      else if compareNumbers (minor x) (minor y) \<noteq> 0 then compareNumbers (minor x) (minor y)
      else compareNumbers (patch x) (patch y))"

fun comparePreLoop :: "pre_id list \<Rightarrow> pre_id list \<Rightarrow> int" where
  "comparePreLoop [] [] = 0"
| "comparePreLoop (a # as) [] = 1"
| "comparePreLoop [] (b # bs) = -1"
| "comparePreLoop (a # as) (b # bs) = (if a = b then comparePreLoop as bs else compareIdentifiers a b)"

definition comparePre :: "SemVer \<Rightarrow> SemVer \<Rightarrow> int" where
  "comparePre x y =
     (if prerelease x \<noteq> [] \<and> prerelease y = [] then -1
      else if prerelease x = [] \<and> prerelease y \<noteq> [] then 1
      else if prerelease x = [] \<and> prerelease y = [] then 0
      else comparePreLoop (prerelease x) (prerelease y))"

definition compareSemVer :: "SemVer \<Rightarrow> SemVer \<Rightarrow> int" where
  \<comment> \<open>\<^verbatim>\<open>SemVer.compare\<close>: \<^verbatim>\<open>compareMain(other) || comparePre(other)\<close>\<close>
  "compareSemVer x y = (if compareMain x y \<noteq> 0 then compareMain x y else comparePre x y)"

definition diffSemVer :: "SemVer \<Rightarrow> SemVer \<Rightarrow> string option" where
  "diffSemVer v1 v2 =
     (let comparison = compareSemVer v1 v2 in
      if comparison = 0 then None
      else
        let v1Higher = comparison > 0;
            highVersion = (if v1Higher then v1 else v2);
            lowVersion = (if v1Higher then v2 else v1);
            highHasPre = (prerelease highVersion \<noteq> []);
            lowHasPre = (prerelease lowVersion \<noteq> []);
            prefix = (if highHasPre then ''pre'' else '''')
        in if lowHasPre \<and> \<not> highHasPre \<and> patch lowVersion = 0 \<and> minor lowVersion = 0
           then Some ''major''
           else if lowHasPre \<and> \<not> highHasPre \<and> compareMain lowVersion highVersion = 0
           then (if minor lowVersion \<noteq> 0 \<and> patch lowVersion = 0 then Some ''minor''
                 else Some ''patch'')
           else if major v1 \<noteq> major v2 then Some (prefix @ ''major'')
           else if minor v1 \<noteq> minor v2 then Some (prefix @ ''minor'')
           else if patch v1 \<noteq> patch v2 then Some (prefix @ ''patch'')
           else Some ''prerelease'')"


definition semver_diff :: "string \<Rightarrow> string \<Rightarrow> string option option" where
  \<comment> \<open>\<^verbatim>\<open>semver.diff(a, b)\<close>; the outer \<open>None\<close> is the TypeError for a string that does not parse\<close>
  "semver_diff a b =
     (case (semver_parse a, semver_parse b) of
        (Some v1, Some v2) \<Rightarrow> Some (diffSemVer v1 v2)
      | _ \<Rightarrow> None)"

definition semver_compare :: "string \<Rightarrow> string \<Rightarrow> int option" where
  \<comment> \<open>\<^verbatim>\<open>semver.compare(a, b)\<close>; \<open>None\<close> is the TypeError for a string that does not parse\<close>
  "semver_compare a b =
     (case (semver_parse a, semver_parse b) of
        (Some x, Some y) \<Rightarrow> Some (compareSemVer x y)
      | _ \<Rightarrow> None)"

definition semver_rcompare :: "string \<Rightarrow> string \<Rightarrow> int option" where
  \<comment> \<open>\<^verbatim>\<open>semver.rcompare(a, b) = compare(b, a)\<close>\<close>
  "semver_rcompare a b = semver_compare b a"

subsection \<open>Array.prototype.sort with a comparator\<close>

text \<open>
  The sort is stable; for a comparator that is a total preorder its result is the stable
  sorted permutation, computed here by insertion.
\<close>

fun insort_by :: "('a \<Rightarrow> 'a \<Rightarrow> int) \<Rightarrow> 'a \<Rightarrow> 'a list \<Rightarrow> 'a list" where
  "insort_by cmp x [] = [x]"
| "insort_by cmp x (y # ys) = (if cmp x y \<le> 0 then x # y # ys else y # insort_by cmp x ys)"

definition stable_sort :: "('a \<Rightarrow> 'a \<Rightarrow> int) \<Rightarrow> 'a list \<Rightarrow> 'a list" where
  "stable_sort cmp xs = foldr (insort_by cmp) xs []"

subsection \<open>Data model\<close>

datatype json =
    JNull
  | JBool bool
  | JNum int
  | JStr string
  | JArr "json list"
  | JObj "(string \<times> json) list"

text \<open>
  A value of type \<^verbatim>\<open>any\<close> is a JSON document. An object is the list of its own properties
  in the order \<^verbatim>\<open>Object.keys\<close> enumerates them.
\<close>

datatype Status = Draft | Published | Deprecated | Retired

datatype CompatibilityLevel = Patch | Minor | Major

datatype Environment = Development | Staging | Production

record Contact =
  contact_name :: string
  contact_email :: string

record License =
  license_name :: string
  license_url :: string

record Info =
  title :: string
  info_description :: string
  info_version :: string
  contact :: "Contact option"
  license :: "License option"

record Server =
  server_url :: string
  server_description :: string

record Specification =
  openapi :: string
  info :: Info
  servers :: "Server list"
  paths :: "(string \<times> json) list"
  components :: "(string \<times> json) list option"

record Resources =
  cpu :: string
  memory :: string

record HealthCheck =
  health_path :: string
  health_interval :: int
  health_timeout :: int

record Deployment =
  environment :: Environment
  endpoint :: string
  containerImage :: string
  replicas :: int
  resources :: Resources
  healthCheck :: HealthCheck

record Metrics =
  requests :: int
  errors :: int
  responseTime :: int
  uptime :: int
  adoption :: int

record DeprecationPlan =
  reason :: string
  migrationGuide :: string
  supportEndDate :: int
  replacementVersion :: "string option"

text \<open>
  The interface \<^verbatim>\<open>APIVersion\<close>. Its boolean field \<^verbatim>\<open>breakingChanges\<close> is called
  \<open>hasBreakingChanges\<close> here, the name \<open>breakingChanges\<close> being kept for the field of the
  compatibility report, and its field \<^verbatim>\<open>specification\<close> is called \<open>apiSpecification\<close>.
\<close>

record APIVersion =
  apiId :: string
  tenantId :: string
  version :: string
  status :: Status
  createdAt :: int
  publishedAt :: "int option"
  deprecatedAt :: "int option"
  retiredAt :: "int option"
  createdBy :: string
  changelog :: string
  hasBreakingChanges :: bool
  compatibilityLevel :: CompatibilityLevel
  apiSpecification :: Specification
  deployment :: Deployment
  metrics :: Metrics
  deprecationPlan :: "DeprecationPlan option"

datatype BreakingChangePolicy = MajorOnly | Allowed | Forbidden

record BackwardCompatibility =
  required :: bool
  testSuite :: string

record Policy =
  maxVersions :: int
  supportPeriod :: int
  deprecationWarning :: int
  autoRetirement :: bool
  retirementPeriod :: int
  breakingChangePolicy :: BreakingChangePolicy
  backwardCompatibility :: BackwardCompatibility

record Notification =
  enabled :: bool
  recipients :: "string list"
  template :: string

record Notifications =
  deprecation :: Notification
  retirement :: Notification

record APILifecyclePolicy =
  policy_tenantId :: string
  policy_apiId :: string
  policy :: Policy
  notifications :: Notifications

datatype error =
    InvalidVersionFormat   \<comment> \<open>\<^verbatim>\<open>Error('Invalid semantic version format')\<close>\<close>
  | DuplicateVersion       \<comment> \<open>\<^verbatim>\<open>Error('Version already exists')\<close>\<close>
  | VersionNotFound        \<comment> \<open>\<^verbatim>\<open>Error('Version not found')\<close>, \<^verbatim>\<open>Error('One or both versions not found')\<close>\<close>
  | InvalidTransition      \<comment> \<open>\<^verbatim>\<open>Error('Only published versions can be deprecated')\<close>,
                               \<^verbatim>\<open>Error('Only deprecated versions can be retired')\<close>\<close>
  | InvalidVersionTypeError \<comment> \<open>the TypeError of the semver package for a string that does not parse\<close>
  | InvalidTimeValue       \<comment> \<open>the RangeError of \<^verbatim>\<open>toISOString\<close> on an invalid date\<close>
  | UndefinedValue         \<comment> \<open>the error of \<^verbatim>\<open>marshall\<close> for an undefined attribute value\<close>

subsection \<open>The stores\<close>

text \<open>
  The table of version records holds at most one item per key (apiId, version); a query
  returns the items of one partition in ascending order of the sort key, the version
  string. The bucket maps object keys to specification documents.
\<close>

definition same_key :: "string \<Rightarrow> string \<Rightarrow> APIVersion \<Rightarrow> bool" where
  "same_key a v r = (apiId r = a \<and> version r = v)"

definition getItem :: "APIVersion list \<Rightarrow> string \<Rightarrow> string \<Rightarrow> APIVersion option" where
  "getItem t a v = find (same_key a v) t"

definition putItem :: "APIVersion list \<Rightarrow> APIVersion \<Rightarrow> APIVersion list" where
  "putItem t r = r # filter (\<lambda>x. \<not> same_key (apiId r) (version r) x) t"

definition updateItem :: "APIVersion list \<Rightarrow> string \<Rightarrow> string \<Rightarrow> (APIVersion \<Rightarrow> APIVersion) \<Rightarrow> APIVersion list" where
  \<comment> \<open>a SET update of attributes other than the key, on an item that exists\<close>
  "updateItem t a v f = map (\<lambda>x. if same_key a v x then f x else x) t"

definition query :: "APIVersion list \<Rightarrow> string \<Rightarrow> APIVersion list" where
  "query t a = sort_key version (filter (\<lambda>x. apiId x = a) t)"

definition toISOString :: "int \<Rightarrow> error + int" where
  \<comment> \<open>\<^verbatim>\<open>new Date(t).toISOString()\<close>: a time value beyond 8.64e15 ms is an invalid date\<close>
  "toISOString t = (if \<bar>t\<bar> \<le> 8640000000000000 then Inr t else Inl InvalidTimeValue)"


subsection \<open>Compatibility reports and migration plans\<close>

datatype ChangeType = RemovedEndpoint | ChangedSchema | AddedRequiredField | ChangedResponseFormat

datatype Severity = Low | Medium | High | Critical

record BreakingChange =
  change_type :: ChangeType
  change_path :: string
  change_description :: string
  severity :: Severity
  impact :: string
  mitigation :: "string option"

record Warning =
  warning_type :: string
  warning_description :: string
  recommendation :: string

record CompatibilityReport =
  version1 :: string
  version2 :: string
  compatible :: bool
  breakingChanges :: "BreakingChange list"
  warnings :: "Warning list"
  score :: int

datatype StepType = Preparation | DeploymentStep | Verification | Cleanup

datatype StepStatus = Pending | Running | Completed | Failed | Skipped

record StepValidation =
  healthCheckFlag :: bool
  contractTestsFlag :: bool
  performanceTestsFlag :: bool

record MigrationStep =
  step_id :: string
  step_name :: string
  step_description :: string
  step_type :: StepType
  step_status :: StepStatus
  step_duration :: "int option"
  step_startedAt :: "int option"
  step_completedAt :: "int option"
  dependencies :: "string list"
  commands :: "string list"
  step_validation :: StepValidation

datatype TestType = ContractTest | IntegrationTest | PerformanceTest | SecurityTest

record ValidationTest =
  test_name :: string
  test_type :: TestType
  test_endpoint :: string
  test_method :: string
  expectedStatus :: int
  expectedResponse :: "json option"
  test_timeout :: int
  retries :: int

record RollbackPlan =
  rollback_enabled :: bool
  conditions :: "string list"
  rollback_steps :: "string list"

record PlanValidation =
  preDeployment :: "ValidationTest list"
  postDeployment :: "ValidationTest list"
  contractTests :: "string list"

record PlanMetrics =
  successRate :: int
  errorRate :: int
  performanceImpact :: int

datatype PlanStatus = Planned | InProgress | PlanCompleted | PlanFailed

record MigrationPlan =
  plan_id :: string
  fromVersion :: string
  toVersion :: string
  plan_apiId :: string
  plan_tenantId :: string
  plan_status :: PlanStatus
  plan_createdAt :: int
  plan_startedAt :: "int option"
  plan_completedAt :: "int option"
  strategy :: string
  steps :: "MigrationStep list"
  rollbackPlan :: RollbackPlan
  plan_validation :: PlanValidation
  plan_metrics :: PlanMetrics

subsection \<open>The service state\<close>

record state =
  versionsTable :: "APIVersion list"
  bucket :: "(string \<times> Specification) list"
  policiesTable :: "APILifecyclePolicy list"
  plansTable :: "MigrationPlan list"

type_synonym 'a result = "(error + 'a) \<times> state"

subsection \<open>Version store\<close>

definition getVersion :: "state \<Rightarrow> string \<Rightarrow> string \<Rightarrow> APIVersion option" where
  "getVersion st a v = getItem (versionsTable st) a v"

definition getVersions :: "state \<Rightarrow> string \<Rightarrow> APIVersion list" where
  "getVersions st a = query (versionsTable st) a"

text \<open>
  \<^verbatim>\<open>versions.sort((a, b) => semver.compare(a.version, b.version))\<close>: the comparator parses both
  version strings and throws on one that does not parse. An array of fewer than two elements
  is returned without a comparison. In a longer one every element is compared at least once,
  so the sort throws exactly when some version string does not parse; otherwise every
  comparison gives a number and the last case of the comparator below is not taken.
\<close>

definition sortVersions ::
  "(string \<Rightarrow> string \<Rightarrow> int option) \<Rightarrow> APIVersion list \<Rightarrow> error + APIVersion list" where
  "sortVersions cmp rs =
     (if length rs < 2 then Inr rs
      else if list_all (\<lambda>r. semver_valid (version r)) rs
      then Inr (stable_sort (\<lambda>x y. case cmp (version x) (version y) of
                                      Some c \<Rightarrow> c | None \<Rightarrow> 0) rs)
      else Inl InvalidVersionTypeError)"

definition getLatestVersion :: "state \<Rightarrow> string \<Rightarrow> error + APIVersion option" where
  "getLatestVersion st a =
     (let versions = getVersions st a in
      if length versions = 0 then Inr None
      else case sortVersions semver_rcompare versions of
             Inl e \<Rightarrow> Inl e
           | Inr sortedVersions \<Rightarrow> Inr (case sortedVersions of [] \<Rightarrow> None | v # _ \<Rightarrow> Some v))"

definition specificationKey :: "APIVersion \<Rightarrow> string" where
  "specificationKey r =
     ''api-specifications/'' @ tenantId r @ ''/'' @ apiId r @ ''/'' @ version r @ ''/openapi.json''"

definition storeSpecification :: "state \<Rightarrow> APIVersion \<Rightarrow> state" where
  "storeSpecification st r =
     st\<lparr>bucket := (specificationKey r, apiSpecification r)
                    # filter (\<lambda>kv. fst kv \<noteq> specificationKey r) (bucket st)\<rparr>"

definition getLifecyclePolicy :: "state \<Rightarrow> string \<Rightarrow> APILifecyclePolicy option" where
  "getLifecyclePolicy st a = find (\<lambda>p. policy_apiId p = a) (policiesTable st)"

definition deprecateVersion ::
  "state \<Rightarrow> int \<Rightarrow> string \<Rightarrow> string \<Rightarrow> DeprecationPlan option \<Rightarrow> unit result" where
  "deprecateVersion st now a v plan =
     (case getVersion st a v of
        None \<Rightarrow> (Inl VersionNotFound, st)
      | Some apiVersion \<Rightarrow>
          if status apiVersion \<noteq> Published then (Inl InvalidTransition, st)
          else (case plan of
                  None \<Rightarrow> (Inl UndefinedValue, st)
                | Some p \<Rightarrow>
                    (Inr (),
                     st\<lparr>versionsTable :=
                          updateItem (versionsTable st) a v
                            (\<lambda>r. r\<lparr>status := Deprecated, deprecatedAt := Some now,
                                     deprecationPlan := Some p\<rparr>)\<rparr>)))"

definition retireVersion :: "state \<Rightarrow> int \<Rightarrow> string \<Rightarrow> string \<Rightarrow> unit result" where
  "retireVersion st now a v =
     (case getVersion st a v of
        None \<Rightarrow> (Inl VersionNotFound, st)
      | Some apiVersion \<Rightarrow>
          if status apiVersion \<noteq> Deprecated then (Inl InvalidTransition, st)
          else (Inr (),
                st\<lparr>versionsTable :=
                     updateItem (versionsTable st) a v
                       (\<lambda>r. r\<lparr>status := Retired, retiredAt := Some now\<rparr>)\<rparr>))"

subsection \<open>Lifecycle policy engine\<close>

fun deprecateEach ::
  "state \<Rightarrow> int \<Rightarrow> APILifecyclePolicy \<Rightarrow> APIVersion \<Rightarrow> APIVersion list \<Rightarrow> unit result" where
  "deprecateEach st now pol newVersion [] = (Inr (), st)"
| "deprecateEach st now pol newVersion (oldVersion # rest) =
     (case toISOString (now + supportPeriod (policy pol) * 24 * 60 * 60 * 1000) of
        Inl e \<Rightarrow> (Inl e, st)
      | Inr supportEnd \<Rightarrow>
          (case deprecateVersion st now (apiId oldVersion) (version oldVersion)
                  (Some \<lparr>reason = ''Exceeded maximum version policy'',
                         migrationGuide = ''Please migrate to the latest version'',
                         supportEndDate = supportEnd,
                         replacementVersion = Some (version newVersion)\<rparr>) of
             (Inl e, st') \<Rightarrow> (Inl e, st')
           | (Inr u, st') \<Rightarrow> deprecateEach st' now pol newVersion rest))"

definition applyLifecyclePolicy :: "state \<Rightarrow> int \<Rightarrow> APIVersion \<Rightarrow> unit result" where
  "applyLifecyclePolicy st now newVersion =
     (case getLifecyclePolicy st (apiId newVersion) of
        None \<Rightarrow> (Inr (), st)
      | Some pol \<Rightarrow>
          let versions = getVersions st (apiId newVersion);
              activeVersions = filter (\<lambda>v. status v = Published) versions
          in if int (length activeVersions) > maxVersions (policy pol) then
               (case sortVersions semver_compare activeVersions of
                  Inl e \<Rightarrow> (Inl e, st)
                | Inr sortedVersions \<Rightarrow>
                    let toDeprecate =
                          take (nat (int (length activeVersions) - maxVersions (policy pol)))
                            sortedVersions
                    in deprecateEach st now pol newVersion toDeprecate)
             else (Inr (), st))"

subsection \<open>Creating a version\<close>

definition createVersion :: "state \<Rightarrow> int \<Rightarrow> APIVersion \<Rightarrow> APIVersion result" where
  "createVersion st now versionData =
     (if \<not> semver_valid (version versionData) then (Inl InvalidVersionFormat, st)
      else case getVersion st (apiId versionData) (version versionData) of
        Some existingVersion \<Rightarrow> (Inl DuplicateVersion, st)
      | None \<Rightarrow>
          (case getLatestVersion st (apiId versionData) of
             Inl e \<Rightarrow> (Inl e, st)
           | Inr latestVersion \<Rightarrow>
               (case (case latestVersion of
                        None \<Rightarrow> Some Patch
                      | Some latest \<Rightarrow>
                          (case semver_diff (version latest) (version versionData) of
                             None \<Rightarrow> None
                           | Some diff \<Rightarrow>
                               Some (if diff = Some ''major'' then Major
                                     else if diff = Some ''minor'' then Minor
                                     else Patch))) of
                  None \<Rightarrow> (Inl InvalidVersionTypeError, st)
                | Some level \<Rightarrow>
                    let newVersion =
                          versionData\<lparr>compatibilityLevel := level,
                                       createdAt := now,
                                       metrics := \<lparr>requests = 0, errors = 0, responseTime = 0,
                                                    uptime = 100, adoption = 0\<rparr>\<rparr>;
                        st1 = st\<lparr>versionsTable := putItem (versionsTable st) newVersion\<rparr>;
                        st2 = storeSpecification st1 newVersion
                    in (case applyLifecyclePolicy st2 now newVersion of
                          (Inl e, st3) \<Rightarrow> (Inl e, st3)
                        | (Inr u, st3) \<Rightarrow> (Inr newVersion, st3)))))"


subsection \<open>Reading JSON documents\<close>

definition truthy :: "json option \<Rightarrow> bool" where
  \<comment> \<open>JavaScript truthiness; \<open>None\<close> is \<^verbatim>\<open>undefined\<close>\<close>
  "truthy x =
     (case x of
        None \<Rightarrow> False
      | Some JNull \<Rightarrow> False
      | Some (JBool b) \<Rightarrow> b
      | Some (JNum n) \<Rightarrow> n \<noteq> 0
      | Some (JStr s) \<Rightarrow> s \<noteq> []
      | Some (JArr xs) \<Rightarrow> True
      | Some (JObj kvs) \<Rightarrow> True)"

definition index_keys :: "nat \<Rightarrow> string list" where
  "index_keys n = map nat_to_str [0..<n]"

definition Object_keys :: "json option \<Rightarrow> string list" where
  \<comment> \<open>\<^verbatim>\<open>Object.keys(x || {})\<close>: the own enumerable keys; a string and an array have their indices\<close>
  "Object_keys x =
     (if \<not> truthy x then []
      else case x of
             Some (JObj kvs) \<Rightarrow> map fst kvs
           | Some (JArr xs) \<Rightarrow> index_keys (length xs)
           | Some (JStr s) \<Rightarrow> index_keys (length s)
           | _ \<Rightarrow> [])"

text \<open>
  The property read with optional chaining, which gives \<^verbatim>\<open>undefined\<close> on \<^verbatim>\<open>undefined\<close> and
  on \<^verbatim>\<open>null\<close>. The plain reads of the analyzer are made on a value that has the key as an
  own key or that is truthy, where the plain read and the chained one agree.
\<close>

definition getProp :: "json option \<Rightarrow> string \<Rightarrow> json option" where
  "getProp x k =
     (case x of
        Some (JObj kvs) \<Rightarrow> map_of kvs k
      | Some (JArr xs) \<Rightarrow>
          (case find (\<lambda>i. nat_to_str i = k) [0..<length xs] of
             Some i \<Rightarrow> Some (xs ! i)
           | None \<Rightarrow> if k = ''length'' then Some (JNum (int (length xs))) else None)
      | Some (JStr s) \<Rightarrow>
          (case find (\<lambda>i. nat_to_str i = k) [0..<length s] of
             Some i \<Rightarrow> Some (JStr [s ! i])
           | None \<Rightarrow> if k = ''length'' then Some (JNum (int (length s))) else None)
      | _ \<Rightarrow> None)"

definition hex_digit :: "int \<Rightarrow> char" where
  "hex_digit d = (if d < 10 then char_of (48 + d) else char_of (87 + d))"

definition escape_char :: "char \<Rightarrow> string" where
  "escape_char c =
     (if c = CHR 0x22 then [CHR 0x5C, CHR 0x22]
      else if c = CHR 0x5C then [CHR 0x5C, CHR 0x5C]
      else if c = CHR 0x08 then [CHR 0x5C, CHR ''b'']
      else if c = CHR 0x0C then [CHR 0x5C, CHR ''f'']
      else if c = CHR 0x0A then [CHR 0x5C, CHR ''n'']
      else if c = CHR 0x0D then [CHR 0x5C, CHR ''r'']
      else if c = CHR 0x09 then [CHR 0x5C, CHR ''t'']
      else if (of_char c :: int) < 32
        then [CHR 0x5C, CHR ''u'', CHR ''0'', CHR ''0'',
              hex_digit (of_char c div 16), hex_digit (of_char c mod 16)]
      else [c])"

definition quote :: "string \<Rightarrow> string" where
  "quote s = [CHR 0x22] @ concat (map escape_char s) @ [CHR 0x22]"

fun join :: "string \<Rightarrow> string list \<Rightarrow> string" where
  "join sep [] = []"
| "join sep [x] = x"
| "join sep (x # y # ys) = x @ sep @ join sep (y # ys)"

fun JSON_stringify :: "json \<Rightarrow> string" where
  "JSON_stringify JNull = ''null''"
| "JSON_stringify (JBool b) = (if b then ''true'' else ''false'')"
| "JSON_stringify (JNum n) = int_to_str n"
| "JSON_stringify (JStr s) = quote s"
| "JSON_stringify (JArr xs) = ''['' @ join '','' (map JSON_stringify xs) @ '']''"
| "JSON_stringify (JObj kvs) =
     ''{'' @ join '','' (map (\<lambda>kv. quote (fst kv) @ '':'' @ JSON_stringify (snd kv)) kvs) @ ''}''"

definition stringify :: "json option \<Rightarrow> string option" where
  \<comment> \<open>\<^verbatim>\<open>JSON.stringify(undefined)\<close> is \<^verbatim>\<open>undefined\<close>\<close>
  "stringify x = map_option JSON_stringify x"

subsection \<open>Compatibility analyzer\<close>

definition removedEndpoint :: "string \<Rightarrow> BreakingChange" where
  "removedEndpoint path =
     \<lparr>change_type = RemovedEndpoint,
      change_path = path,
      change_description = ''Endpoint '' @ path @ '' was removed'',
      severity = Critical,
      impact = ''Clients using this endpoint will fail'',
      mitigation = Some ''Provide alternative endpoint or keep for backward compatibility''\<rparr>"

definition changedResponseFormat :: "(string \<Rightarrow> string) \<Rightarrow> string \<Rightarrow> string \<Rightarrow> BreakingChange" where
  "changedResponseFormat toUpperCase method path =
     \<lparr>change_type = ChangedResponseFormat,
      change_path = toUpperCase method @ '' '' @ path,
      change_description = ''Response format changed'',
      severity = High,
      impact = ''Client parsing may fail'',
      mitigation = Some ''Use content negotiation or versioned endpoints''\<rparr>"

definition changedMethod :: "(string \<Rightarrow> string) \<Rightarrow> Specification \<Rightarrow> Specification \<Rightarrow> string \<Rightarrow> string \<Rightarrow> BreakingChange list" where
  \<comment> \<open>the body of the inner \<^verbatim>\<open>methods2.forEach\<close>, for a method of both path items\<close>
  "changedMethod toUpperCase spec1 spec2 path method =
     (let responses1 = getProp (getProp (map_of (paths spec1) path) method) ''responses'';
          responses2 = getProp (getProp (map_of (paths spec2) path) method) ''responses''
      in if truthy responses1 \<and> truthy responses2 then
           (let schema1 = stringify (getProp (getProp responses1 ''200'') ''content'');
                schema2 = stringify (getProp (getProp responses2 ''200'') ''content'')
            in if schema1 \<noteq> schema2 then [changedResponseFormat toUpperCase method path] else [])
         else [])"

definition changedPath :: "(string \<Rightarrow> string) \<Rightarrow> Specification \<Rightarrow> Specification \<Rightarrow> string \<Rightarrow> BreakingChange list" where
  \<comment> \<open>the body of the second \<^verbatim>\<open>paths2.forEach\<close>, for a path of both specifications\<close>
  "changedPath toUpperCase spec1 spec2 path =
     (let methods1 = Object_keys (map_of (paths spec1) path);
          methods2 = Object_keys (map_of (paths spec2) path)
      in concat (map (\<lambda>method. if method \<in> set methods1
                                 then changedMethod toUpperCase spec1 spec2 path method else [])
                     methods2))"

definition analyzeBreakingChanges :: "(string \<Rightarrow> string) \<Rightarrow> Specification \<Rightarrow> Specification \<Rightarrow> BreakingChange list" where
  "analyzeBreakingChanges toUpperCase spec1 spec2 =
     (let paths1 = map fst (paths spec1);
          paths2 = map fst (paths spec2)
      in concat (map (\<lambda>path. if path \<notin> set paths2 then [removedEndpoint path] else []) paths1)
         @ concat (map (\<lambda>path. if path \<in> set paths1 then changedPath toUpperCase spec1 spec2 path else [])
                       paths2))"

definition scoreDeduction :: "BreakingChange list \<Rightarrow> int" where
  "scoreDeduction changes =
     foldl (\<lambda>d change. case severity change of
                          Critical \<Rightarrow> d + 25
                        | High \<Rightarrow> d + 15
                        | Medium \<Rightarrow> d + 10
                        | Low \<Rightarrow> d + 5) 0 changes"

definition compareVersions :: "(string \<Rightarrow> string) \<Rightarrow> state \<Rightarrow> string \<Rightarrow> string \<Rightarrow> string \<Rightarrow> error + CompatibilityReport" where
  "compareVersions toUpperCase st a ver1 ver2 =
     (case (getVersion st a ver1, getVersion st a ver2) of
        (Some v1, Some v2) \<Rightarrow>
          let changes = analyzeBreakingChanges toUpperCase (apiSpecification v1) (apiSpecification v2)
          in Inr \<lparr>version1 = ver1,
                  version2 = ver2,
                  compatible = (length changes = 0),
                  breakingChanges = changes,
                  warnings = [],
                  score = max 0 (100 - scoreDeduction changes)\<rparr>
      | _ \<Rightarrow> Inl VersionNotFound)"

subsection \<open>Migration plan generator\<close>

definition mkStep ::
  "string \<Rightarrow> string \<Rightarrow> string \<Rightarrow> StepType \<Rightarrow> string list \<Rightarrow> string list
     \<Rightarrow> bool \<Rightarrow> bool \<Rightarrow> bool \<Rightarrow> MigrationStep" where
  \<comment> \<open>a step literal of the source: status pending, no duration and no timestamps\<close>
  "mkStep i n d t deps cmds hc ct pt =
     \<lparr>step_id = i, step_name = n, step_description = d, step_type = t, step_status = Pending,
      step_duration = None, step_startedAt = None, step_completedAt = None,
      dependencies = deps, commands = cmds,
      step_validation = \<lparr>healthCheckFlag = hc, contractTestsFlag = ct, performanceTestsFlag = pt\<rparr>\<rparr>"

definition generateMigrationSteps :: "string \<Rightarrow> CompatibilityReport \<Rightarrow> MigrationStep list" where
  "generateMigrationSteps strat compatibilityReport =
     (let preparation =
            mkStep ''prep-1'' ''Pre-deployment Validation''
              ''Run pre-deployment tests and validations'' Preparation []
              [''npm test'', ''npm run lint'', ''npm run security-check''] True True False;
          deploymentSteps =
            (if strat = ''blue-green'' then
               [mkStep ''deploy-1'' ''Deploy Green Environment''
                  ''Deploy new version to green environment'' DeploymentStep [''prep-1'']
                  [''kubectl apply -f green-deployment.yaml''] True True True,
                mkStep ''deploy-2'' ''Switch Traffic''
                  ''Switch traffic from blue to green'' DeploymentStep [''deploy-1'']
                  [''kubectl patch service api-service -p '' @ [CHR 0x27] @ ''...'' @ [CHR 0x27]]
                  True False True]
             else if strat = ''canary'' then
               [mkStep ''deploy-1'' ''Deploy Canary (10%)''
                  ''Deploy new version to 10% of traffic'' DeploymentStep [''prep-1'']
                  [''kubectl apply -f canary-10-deployment.yaml''] True True True,
                mkStep ''deploy-2'' ''Increase to 50%''
                  ''Increase canary traffic to 50%'' DeploymentStep [''deploy-1'']
                  [''kubectl apply -f canary-50-deployment.yaml''] True False True,
                mkStep ''deploy-3'' ''Full Deployment''
                  ''Route 100% traffic to new version'' DeploymentStep [''deploy-2'']
                  [''kubectl apply -f full-deployment.yaml''] True False True]
             else [])
      in (preparation # deploymentSteps) @
         [mkStep ''cleanup-1'' ''Cleanup Old Resources'' ''Remove old deployment resources''
            Cleanup [step_id (last (preparation # deploymentSteps))]
            [''kubectl delete deployment old-api-deployment''] False False False])"

definition generateValidationTests :: "string \<Rightarrow> string \<Rightarrow> string \<Rightarrow> ValidationTest list" where
  "generateValidationTests phase fromV toV =
     (let tests =
            [\<lparr>test_name = ''Health Check'', test_type = IntegrationTest, test_endpoint = ''/health'',
              test_method = ''GET'', expectedStatus = 200, expectedResponse = None,
              test_timeout = 5000, retries = 3\<rparr>,
             \<lparr>test_name = ''API Compatibility'', test_type = ContractTest,
              test_endpoint = ''/api/v1/test'', test_method = ''GET'', expectedStatus = 200,
              expectedResponse = None, test_timeout = 10000, retries = 2\<rparr>]
      in if phase = ''post'' then
           tests @ [\<lparr>test_name = ''Performance Baseline'', test_type = PerformanceTest,
                      test_endpoint = ''/api/v1/benchmark'', test_method = ''GET'',
                      expectedStatus = 200, expectedResponse = None, test_timeout = 15000,
                      retries = 1\<rparr>]
         else tests)"

text \<open>
  \<open>now\<close> is the reading of the clock and \<open>rnd\<close> the random suffix
  \<^verbatim>\<open>Math.random().toString(36).substr(2, 9)\<close> of the plan identifier.
\<close>

definition createMigrationPlan ::
  "(string \<Rightarrow> string) \<Rightarrow> state \<Rightarrow> int \<Rightarrow> string \<Rightarrow> string \<Rightarrow> string \<Rightarrow> string \<Rightarrow> string \<Rightarrow> MigrationPlan result" where
  "createMigrationPlan toUpperCase st now rnd a fromV toV strat =
     (case compareVersions toUpperCase st a fromV toV of
        Inl e \<Rightarrow> (Inl e, st)
      | Inr compatibilityReport \<Rightarrow>
          let migrationPlan =
                \<lparr>plan_id = ''migration-'' @ int_to_str now @ ''-'' @ rnd,
                 fromVersion = fromV,
                 toVersion = toV,
                 plan_apiId = a,
                 plan_tenantId = [],
                 plan_status = Planned,
                 plan_createdAt = now,
                 plan_startedAt = None,
                 plan_completedAt = None,
                 strategy = strat,
                 steps = generateMigrationSteps strat compatibilityReport,
                 rollbackPlan =
                   \<lparr>rollback_enabled = True,
                    conditions = [''error-rate > 5%'', ''response-time > 2000ms''],
                    rollback_steps = [''Stop traffic to new version'',
                                      ''Route all traffic to old version'',
                                      ''Investigate issues'']\<rparr>,
                 plan_validation =
                   \<lparr>preDeployment = generateValidationTests ''pre'' fromV toV,
                    postDeployment = generateValidationTests ''post'' fromV toV,
                    contractTests = [''contract-test-suite'']\<rparr>,
                 plan_metrics = \<lparr>successRate = 0, errorRate = 0, performanceImpact = 0\<rparr>\<rparr>
          in (Inr migrationPlan,
              st\<lparr>plansTable := migrationPlan
                     # filter (\<lambda>p. plan_id p \<noteq> plan_id migrationPlan) (plansTable st)\<rparr>))"

subsection \<open>Example data\<close>

definition exampleSpecification :: "(string \<times> json) list \<Rightarrow> Specification" where
  "exampleSpecification ps =
     \<lparr>openapi = ''3.0.0'',
      info = \<lparr>title = ''Orders'', info_description = ''Orders API'', info_version = ''1'',
               contact = None, license = None\<rparr>,
      servers = [],
      paths = ps,
      components = None\<rparr>"

definition exampleVersion :: "string \<Rightarrow> Status \<Rightarrow> (string \<times> json) list \<Rightarrow> APIVersion" where
  "exampleVersion v s ps =
     \<lparr>apiId = ''orders'',
      tenantId = ''acme'',
      version = v,
      status = s,
      createdAt = 0,
      publishedAt = None,
      deprecatedAt = None,
      retiredAt = None,
      createdBy = ''alice'',
      changelog = [],
      hasBreakingChanges = False,
      compatibilityLevel = Patch,
      apiSpecification = exampleSpecification ps,
      deployment =
        \<lparr>environment = Production, endpoint = ''https://orders.example'',
         containerImage = ''orders:1'', replicas = 2,
         resources = \<lparr>cpu = ''500m'', memory = ''512Mi''\<rparr>,
         healthCheck = \<lparr>health_path = ''/health'', health_interval = 30, health_timeout = 5\<rparr>\<rparr>,
      metrics = \<lparr>requests = 0, errors = 0, responseTime = 0, uptime = 100, adoption = 0\<rparr>,
      deprecationPlan = None\<rparr>"

definition examplePolicy :: "int \<Rightarrow> int \<Rightarrow> APILifecyclePolicy" where
  "examplePolicy maxV period =
     \<lparr>policy_tenantId = ''acme'',
      policy_apiId = ''orders'',
      policy =
        \<lparr>maxVersions = maxV, supportPeriod = period, deprecationWarning = 30,
         autoRetirement = False, retirementPeriod = 90, breakingChangePolicy = MajorOnly,
         backwardCompatibility = \<lparr>required = True, testSuite = ''compat''\<rparr>\<rparr>,
      notifications =
        \<lparr>deprecation = \<lparr>enabled = True, recipients = [], template = ''deprecation''\<rparr>,
         retirement = \<lparr>enabled = True, recipients = [], template = ''retirement''\<rparr>\<rparr>\<rparr>"

definition exampleState :: "APIVersion list \<Rightarrow> APILifecyclePolicy list \<Rightarrow> state" where
  "exampleState vs ps = \<lparr>versionsTable = vs, bucket = [], policiesTable = ps, plansTable = []\<rparr>"

definition getEndpoint :: json where
  \<comment> \<open>a path item with one GET operation\<close>
  "getEndpoint =
     JObj [(''get'', JObj [(''responses'',
             JObj [(''200'', JObj [(''content'', JObj [(''application/json'', JObj [])])])])])]"

definition compareState :: state where
  \<comment> \<open>version 1.0.0 with two paths, version 1.1.0 with the first of them only\<close>
  "compareState =
     exampleState
       [exampleVersion ''1.0.0'' Published [(''/orders'', getEndpoint), (''/items'', getEndpoint)],
        exampleVersion ''1.1.0'' Draft [(''/orders'', getEndpoint)]] []"

subsection \<open>Notions used in the statements\<close>

definition table_key :: "APIVersion \<Rightarrow> string \<times> string" where
  "table_key r = (apiId r, version r)"

definition wf_table :: "APIVersion list \<Rightarrow> bool" where
  \<comment> \<open>the table holds one item per key\<close>
  "wf_table t = distinct (map table_key t)"

definition semver_le :: "string \<Rightarrow> string \<Rightarrow> bool" where
  \<comment> \<open>semantic-version precedence of two version strings that parse\<close>
  "semver_le a b = (case semver_compare a b of Some c \<Rightarrow> c \<le> 0 | None \<Rightarrow> False)"

definition status_rank :: "Status \<Rightarrow> nat" where
  \<comment> \<open>the position in the lifecycle draft, published, deprecated, retired\<close>
  "status_rank s = (case s of Draft \<Rightarrow> 0 | Published \<Rightarrow> 1 | Deprecated \<Rightarrow> 2 | Retired \<Rightarrow> 3)"

definition classifyDiff :: "string option \<Rightarrow> CompatibilityLevel" where
  \<comment> \<open>the classification that \<open>createVersion\<close> makes of the result of \<^verbatim>\<open>semver.diff\<close>\<close>
  "classifyDiff d = (if d = Some ''major'' then Major else if d = Some ''minor'' then Minor else Patch)"

definition deprecated_by_policy :: "int \<Rightarrow> APILifecyclePolicy \<Rightarrow> string \<Rightarrow> APIVersion \<Rightarrow> APIVersion" where
  \<comment> \<open>a record after its deprecation by the lifecycle policy at time \<open>now\<close>, replaced by version \<open>v\<close>\<close>
  "deprecated_by_policy now pol v x =
     x\<lparr>status := Deprecated,
       deprecatedAt := Some now,
       deprecationPlan :=
         Some \<lparr>reason = ''Exceeded maximum version policy'',
               migrationGuide = ''Please migrate to the latest version'',
               supportEndDate = now + supportPeriod (policy pol) * 24 * 60 * 60 * 1000,
               replacementVersion = Some v\<rparr>\<rparr>"

definition newRecord :: "int \<Rightarrow> CompatibilityLevel \<Rightarrow> APIVersion \<Rightarrow> APIVersion" where
  \<comment> \<open>the record that \<open>createVersion\<close> builds from its argument\<close>
  "newRecord now level versionData =
     versionData\<lparr>compatibilityLevel := level,
                  createdAt := now,
                  metrics := \<lparr>requests = 0, errors = 0, responseTime = 0,
                               uptime = 100, adoption = 0\<rparr>\<rparr>"

definition persisted :: "state \<Rightarrow> APIVersion \<Rightarrow> state" where
  \<comment> \<open>the state after the PutItem and the PutObject of \<open>createVersion\<close>\<close>
  "persisted st r = storeSpecification (st\<lparr>versionsTable := putItem (versionsTable st) r\<rparr>) r"

text \<open>
  A record evolves when its key, metrics and compatibility level stay and it is either
  unchanged or further along the lifecycle; a state evolves when no key appears or
  disappears and every record evolves.
\<close>

definition evolves :: "APIVersion \<Rightarrow> APIVersion \<Rightarrow> bool" where
  "evolves x y \<longleftrightarrow>
     apiId y = apiId x \<and> version y = version x \<and> metrics y = metrics x
     \<and> compatibilityLevel y = compatibilityLevel x
     \<and> (y = x \<or> status_rank (status x) < status_rank (status y))"

definition state_evolves :: "state \<Rightarrow> state \<Rightarrow> bool" where
  "state_evolves st st' \<longleftrightarrow>
     (\<forall>a v. case getVersion st a v of
              None \<Rightarrow> getVersion st' a v = None
            | Some x \<Rightarrow> (\<exists>y. getVersion st' a v = Some y \<and> evolves x y))"

text \<open>
  Claim C1 as the spec words it: the compatibility level is the classification of the diff
  against the latest published version of the api, and patch when there is none.
\<close>

definition spec_latestPublished :: "state \<Rightarrow> string \<Rightarrow> APIVersion option" where
  "spec_latestPublished st a =
     (case sortVersions semver_rcompare (filter (\<lambda>v. status v = Published) (getVersions st a)) of
        Inr (v # vs) \<Rightarrow> Some v
      | _ \<Rightarrow> None)"

definition spec_compatibilityLevel :: "state \<Rightarrow> string \<Rightarrow> string \<Rightarrow> CompatibilityLevel option" where
  "spec_compatibilityLevel st a v =
     (case spec_latestPublished st a of
        None \<Rightarrow> Some Patch
      | Some l \<Rightarrow> map_option classifyDiff (semver_diff (version l) v))"

definition draftState :: state where
  \<comment> \<open>version 1.0.0 is published, the later version 2.0.0 is a draft\<close>
  "draftState =
     exampleState [exampleVersion ''1.0.0'' Published [], exampleVersion ''2.0.0'' Draft []] []"

definition examplePlan :: DeprecationPlan where
  "examplePlan =
     \<lparr>reason = ''superseded'', migrationGuide = ''see the changelog'',
      supportEndDate = 5000, replacementVersion = Some ''1.1.0''\<rparr>"

definition activeVersions :: "state \<Rightarrow> string \<Rightarrow> APIVersion list" where
  \<comment> \<open>the versions of an api in status published, as \<open>applyLifecyclePolicy\<close> counts them\<close>
  "activeVersions st a = filter (\<lambda>v. status v = Published) (getVersions st a)"

definition fiveState :: state where
  \<comment> \<open>five published versions under a policy with \<open>maxVersions = 5\<close> and 30 days of support\<close>
  "fiveState =
     exampleState
       [exampleVersion ''1.10.0'' Published [], exampleVersion ''1.2.0'' Published [],
        exampleVersion ''1.3.0'' Published [], exampleVersion ''1.4.0'' Published [],
        exampleVersion ''1.5.0'' Published []]
       [examplePolicy 5 30]"

definition sixthVersion :: APIVersion where
  "sixthVersion = newRecord 1000 Major (exampleVersion ''2.0.0'' Published [])"

definition sixState :: state where
  \<comment> \<open>\<open>fiveState\<close> after the sixth version: 1.2.0, the lowest in precedence, is deprecated\<close>
  "sixState =
     (persisted fiveState sixthVersion)
       \<lparr>versionsTable :=
          map (\<lambda>x. if x = exampleVersion ''1.2.0'' Published []
                    then deprecated_by_policy 1000 (examplePolicy 5 30) ''2.0.0'' x else x)
            (versionsTable (persisted fiveState sixthVersion))\<rparr>"

definition floorSpecification :: "(string \<times> json) list" where
  \<comment> \<open>five paths\<close>
  "floorSpecification =
     [(''/a'', getEndpoint), (''/b'', getEndpoint), (''/c'', getEndpoint),
      (''/d'', getEndpoint), (''/e'', getEndpoint)]"

definition floorState :: state where
  \<comment> \<open>version 1.0.0 with five paths, version 2.0.0 with none\<close>
  "floorState =
     exampleState
       [exampleVersion ''1.0.0'' Published floorSpecification,
        exampleVersion ''2.0.0'' Draft []] []"

definition zeroPolicyState :: state where
  \<comment> \<open>no version yet, under a policy with \<open>maxVersions = 0\<close>\<close>
  "zeroPolicyState = exampleState [] [examplePolicy 0 30]"

definition oneState :: state where
  \<comment> \<open>version 1.0.0 alone, published, and no lifecycle policy\<close>
  "oneState = exampleState [exampleVersion ''1.0.0'' Published []] []"

subsection \<open>The deduction table of the spec\<close>

text \<open>
  The spec's table of score deductions by severity: critical 25, high 15, medium 10, low 5.
  The source accumulates the deduction in a loop (\<open>scoreDeduction\<close>); the table is stated
  here on its own so that the two can be compared.
\<close>

definition spec_deduction :: "Severity \<Rightarrow> int" where
  "spec_deduction s = (case s of Critical \<Rightarrow> 25 | High \<Rightarrow> 15 | Medium \<Rightarrow> 10 | Low \<Rightarrow> 5)"

section \<open>Verified properties\<close>

subsection \<open>Evaluation rules\<close>

lemmas example_eval =
  exampleState_def exampleVersion_def exampleSpecification_def examplePolicy_def

lemmas store_eval = getVersion_def getItem_def same_key_def

lemma compareState_v1:
  "getVersion compareState ''orders'' ''1.0.0''
     = Some (exampleVersion ''1.0.0'' Published [(''/orders'', getEndpoint), (''/items'', getEndpoint)])"
  by (simp add: compareState_def store_eval example_eval)

lemma compareState_v2:
  "getVersion compareState ''orders'' ''1.1.0''
     = Some (exampleVersion ''1.1.0'' Draft [(''/orders'', getEndpoint)])"
  by (simp add: compareState_def store_eval example_eval)

subsection \<open>Precedence of semantic versions\<close>

lemma compareNumbers_le: "compareNumbers a b \<le> 0 \<longleftrightarrow> a \<le> b"
  by (simp add: compareNumbers_def)

lemma compareNumbers_eq0: "compareNumbers a b = 0 \<longleftrightarrow> a = b"
  by (simp add: compareNumbers_def)

lemma compareIdentifiers_eq0: "compareIdentifiers a b = 0 \<longleftrightarrow> a = b"
  by (cases a; cases b) (auto simp: compareNumbers_def)

lemma compareIdentifiers_total: "compareIdentifiers a b \<le> 0 \<or> compareIdentifiers b a \<le> 0"
  by (cases a; cases b) (auto simp: compareNumbers_def)

lemma compareIdentifiers_antisym:
  "compareIdentifiers a b \<le> 0 \<Longrightarrow> compareIdentifiers b a \<le> 0 \<Longrightarrow> a = b"
  by (cases a; cases b) (auto simp: compareNumbers_def split: if_splits)

lemma compareIdentifiers_trans:
  "compareIdentifiers a b \<le> 0 \<Longrightarrow> compareIdentifiers b c \<le> 0 \<Longrightarrow> compareIdentifiers a c \<le> 0"
  by (cases a; cases b; cases c) (auto simp: compareNumbers_def split: if_splits)

lemma comparePreLoop_total: "comparePreLoop p q \<le> 0 \<or> comparePreLoop q p \<le> 0"
  by (induction p q rule: comparePreLoop.induct) (use compareIdentifiers_total in auto)

lemma comparePreLoop_trans:
  "comparePreLoop p q \<le> 0 \<Longrightarrow> comparePreLoop q s \<le> 0 \<Longrightarrow> comparePreLoop p s \<le> 0"
proof (induction p arbitrary: q s)
  case Nil
  then show ?case by (cases s) auto
next
  case (Cons a p)
  from Cons.prems obtain b q' where q: "q = b # q'" by (cases q) auto
  from Cons.prems q obtain c s' where s: "s = c # s'" by (cases s) auto
  show ?case
  proof (cases "a = b")
    case ab: True
    show ?thesis
    proof (cases "b = c")
      case True
      with ab Cons q s show ?thesis by auto
    next
      case False
      with ab Cons.prems q s show ?thesis by auto
    qed
  next
    case ab: False
    show ?thesis
    proof (cases "b = c")
      case True
      with ab Cons.prems q s show ?thesis by auto
    next
      case False
      with ab Cons.prems q s have 1: "compareIdentifiers a b \<le> 0" and 2: "compareIdentifiers b c \<le> 0"
        by auto
      have "a \<noteq> c"
      proof
        assume "a = c"
        with 1 2 have "a = b" using compareIdentifiers_antisym by blast
        with ab show False by simp
      qed
      with compareIdentifiers_trans[OF 1 2] s show ?thesis by simp
    qed
  qed
qed

lemma comparePre_total: "comparePre x y \<le> 0 \<or> comparePre y x \<le> 0"
  using comparePreLoop_total[of "prerelease x" "prerelease y"]
  by (auto simp: comparePre_def)

lemma comparePre_trans:
  "comparePre x y \<le> 0 \<Longrightarrow> comparePre y z \<le> 0 \<Longrightarrow> comparePre x z \<le> 0"
  using comparePreLoop_trans[of "prerelease x" "prerelease y" "prerelease z"]
  by (auto simp: comparePre_def split: if_splits)

lemma compareMain_eq0:
  "compareMain x y = 0 \<longleftrightarrow> major x = major y \<and> minor x = minor y \<and> patch x = patch y"
  by (auto simp: compareMain_def compareNumbers_def)

lemma compareMain_lt:
  "compareMain x y < 0 \<longleftrightarrow>
     major x < major y \<or> (major x = major y \<and> (minor x < minor y
       \<or> (minor x = minor y \<and> patch x < patch y)))"
  by (auto simp: compareMain_def compareNumbers_def)

lemma compareSemVer_le:
  "compareSemVer x y \<le> 0 \<longleftrightarrow>
     compareMain x y < 0 \<or> (compareMain x y = 0 \<and> comparePre x y \<le> 0)"
  by (auto simp: compareSemVer_def)

lemma compareSemVer_total: "compareSemVer x y \<le> 0 \<or> compareSemVer y x \<le> 0"
  using comparePre_total[of x y]
  unfolding compareSemVer_le compareMain_lt compareMain_eq0 by auto

lemma compareSemVer_trans:
  "compareSemVer x y \<le> 0 \<Longrightarrow> compareSemVer y z \<le> 0 \<Longrightarrow> compareSemVer x z \<le> 0"
  using comparePre_trans[of x y z]
  unfolding compareSemVer_le compareMain_lt compareMain_eq0 by auto

lemma semver_valid_iff:
  "semver_valid v \<longleftrightarrow>
     js_length v \<le> MAX_LENGTH \<and> spec_semver_syntax (strip_v (trim v))
     \<and> list_all (\<lambda>n. str_to_int n \<le> MAX_SAFE_INTEGER) (numbers_of (strip_v (trim v)))"
  by (auto simp: semver_valid_def semver_parse_def Let_def spec_semver_syntax_def
      split: list.splits)

lemma diffSemVer_release:
  assumes "prerelease x = []" "prerelease y = []"
  shows "diffSemVer x y =
           (if major x \<noteq> major y then Some ''major''
            else if minor x \<noteq> minor y then Some ''minor''
            else if patch x \<noteq> patch y then Some ''patch''
            else None)"
proof -
  have c: "compareSemVer x y = 0 \<longleftrightarrow> major x = major y \<and> minor x = minor y \<and> patch x = patch y"
    using assms by (auto simp: compareSemVer_def comparePre_def compareMain_eq0)
  show ?thesis
    using assms c by (auto simp: diffSemVer_def Let_def)
qed

subsection \<open>Stable sorting\<close>

lemma set_insort_by: "set (insort_by cmp x xs) = insert x (set xs)"
  by (induction xs) auto

lemma length_insort_by: "length (insort_by cmp x xs) = Suc (length xs)"
  by (induction xs) auto

lemma distinct_insort_by: "distinct (insort_by cmp x xs) \<longleftrightarrow> x \<notin> set xs \<and> distinct xs"
  by (induction xs) (auto simp: set_insort_by)

lemma set_stable_sort: "set (stable_sort cmp xs) = set xs"
  by (induction xs) (auto simp: stable_sort_def set_insort_by)

lemma length_stable_sort: "length (stable_sort cmp xs) = length xs"
  by (induction xs) (auto simp: stable_sort_def length_insort_by)

lemma distinct_stable_sort: "distinct (stable_sort cmp xs) = distinct xs"
  by (induction xs) (auto simp: stable_sort_def distinct_insort_by set_stable_sort[unfolded stable_sort_def])

lemma sorted_insort_by:
  assumes tot: "\<And>a b. a \<in> S \<Longrightarrow> b \<in> S \<Longrightarrow> cmp a b \<le> 0 \<or> cmp b a \<le> 0"
    and tr: "\<And>a b c. a \<in> S \<Longrightarrow> b \<in> S \<Longrightarrow> c \<in> S \<Longrightarrow> cmp a b \<le> 0 \<Longrightarrow> cmp b c \<le> 0 \<Longrightarrow> cmp a c \<le> 0"
    and "x \<in> S" "set xs \<subseteq> S" "sorted_wrt (\<lambda>a b. cmp a b \<le> 0) xs"
  shows "sorted_wrt (\<lambda>a b. cmp a b \<le> 0) (insort_by cmp x xs)"
  using assms(3-)
proof (induction xs)
  case Nil
  then show ?case by simp
next
  case (Cons y ys)
  show ?case
  proof (cases "cmp x y \<le> 0")
    case True
    have "\<forall>z\<in>set ys. cmp x z \<le> 0"
    proof
      fix z assume z: "z \<in> set ys"
      with Cons.prems have "cmp y z \<le> 0" by simp
      from tr[OF _ _ _ True this] Cons.prems z show "cmp x z \<le> 0" by auto
    qed
    with True Cons.prems show ?thesis by simp
  next
    case False
    with tot[of x y] Cons.prems have "cmp y x \<le> 0" by auto
    with False Cons show ?thesis by (auto simp: set_insort_by)
  qed
qed

lemma sorted_stable_sort:
  assumes tot: "\<And>a b. a \<in> S \<Longrightarrow> b \<in> S \<Longrightarrow> cmp a b \<le> 0 \<or> cmp b a \<le> 0"
    and tr: "\<And>a b c. a \<in> S \<Longrightarrow> b \<in> S \<Longrightarrow> c \<in> S \<Longrightarrow> cmp a b \<le> 0 \<Longrightarrow> cmp b c \<le> 0 \<Longrightarrow> cmp a c \<le> 0"
    and "set xs \<subseteq> S"
  shows "sorted_wrt (\<lambda>a b. cmp a b \<le> 0) (stable_sort cmp xs)"
  using assms(3)
proof (induction xs)
  case Nil
  then show ?case by (simp add: stable_sort_def)
next
  case (Cons x xs)
  then have "sorted_wrt (\<lambda>a b. cmp a b \<le> 0) (stable_sort cmp xs)" by simp
  from sorted_insort_by[of S cmp x "stable_sort cmp xs", OF tot tr _ _ this] Cons.prems
  show ?case by (simp add: stable_sort_def set_stable_sort[unfolded stable_sort_def])
qed

lemma sorted_wrt_take_drop:
  "sorted_wrt P xs \<Longrightarrow> x \<in> set (take k xs) \<Longrightarrow> y \<in> set (drop k xs) \<Longrightarrow> P x y"
proof -
  assume s: "sorted_wrt P xs" and x: "x \<in> set (take k xs)" and y: "y \<in> set (drop k xs)"
  have "sorted_wrt P (take k xs @ drop k xs)" using s by simp
  then show ?thesis using x y unfolding sorted_wrt_append by blast
qed

subsection \<open>The table of version records\<close>

lemma same_key_iff: "same_key a v r \<longleftrightarrow> table_key r = (a, v)"
  by (auto simp: same_key_def table_key_def)

lemma getItem_Some_mem: "getItem t a v = Some r \<Longrightarrow> r \<in> set t \<and> apiId r = a \<and> version r = v"
  by (auto simp: getItem_def same_key_def find_Some_iff)

lemma getItem_None_iff: "getItem t a v = None \<longleftrightarrow> (\<forall>r \<in> set t. \<not> same_key a v r)"
  by (auto simp: getItem_def find_None_iff)

lemma getItem_wf:
  "wf_table t \<Longrightarrow> r \<in> set t \<Longrightarrow> getItem t (apiId r) (version r) = Some r"
proof (induction t)
  case Nil
  then show ?case by simp
next
  case (Cons x t)
  then show ?case
    by (auto simp: getItem_def wf_table_def same_key_def table_key_def image_iff)
qed

lemma getItem_putItem:
  "getItem (putItem t r) a v = (if same_key a v r then Some r else getItem t a v)"
proof -
  have "find (same_key a v) (filter (\<lambda>x. \<not> same_key (apiId r) (version r) x) t)
          = find (same_key a v) t" if "\<not> same_key a v r"
    using that by (induction t) (auto simp: same_key_def)
  then show ?thesis by (auto simp: getItem_def putItem_def)
qed

lemma getItem_updateItem:
  assumes "\<And>x. apiId (f x) = apiId x \<and> version (f x) = version x"
  shows "getItem (updateItem t a' v' f) a v
           = map_option (\<lambda>x. if same_key a' v' x then f x else x) (getItem t a v)"
  using assms by (induction t) (auto simp: getItem_def updateItem_def same_key_def)

lemma wf_putItem: "wf_table t \<Longrightarrow> wf_table (putItem t r)"
  by (auto simp: wf_table_def putItem_def same_key_def table_key_def distinct_map_filter image_iff)

lemma map_key_updateItem:
  assumes "\<And>x. apiId (f x) = apiId x \<and> version (f x) = version x"
  shows "map table_key (updateItem t a v f) = map table_key t"
  using assms by (auto simp: updateItem_def table_key_def)

lemma wf_updateItem:
  assumes "\<And>x. apiId (f x) = apiId x \<and> version (f x) = version x"
  shows "wf_table (updateItem t a v f) = wf_table t"
  by (simp add: wf_table_def map_key_updateItem[OF assms])

subsection \<open>Evolution of the version table\<close>

lemma evolves_refl: "evolves x x"
  by (simp add: evolves_def)

lemma evolves_trans: "evolves x y \<Longrightarrow> evolves y z \<Longrightarrow> evolves x z"
  by (auto simp: evolves_def)

lemma evolves_rank: "evolves x y \<Longrightarrow> status_rank (status x) \<le> status_rank (status y)"
  by (auto simp: evolves_def)



lemma state_evolves_refl: "state_evolves st st"
  by (auto simp: state_evolves_def evolves_refl split: option.splits)

lemma state_evolvesD_None:
  "state_evolves s1 s2 \<Longrightarrow> getVersion s1 a v = None \<Longrightarrow> getVersion s2 a v = None"
  unfolding state_evolves_def by (drule spec[of _ a], drule spec[of _ v]) simp

lemma state_evolvesD_Some:
  "state_evolves s1 s2 \<Longrightarrow> getVersion s1 a v = Some x
   \<Longrightarrow> \<exists>y. getVersion s2 a v = Some y \<and> evolves x y"
  unfolding state_evolves_def by (drule spec[of _ a], drule spec[of _ v]) simp

lemma state_evolves_trans:
  assumes "state_evolves s1 s2" "state_evolves s2 s3"
  shows "state_evolves s1 s3"
  unfolding state_evolves_def
proof (intro allI)
  fix a v
  show "case getVersion s1 a v of None \<Rightarrow> getVersion s3 a v = None
        | Some x \<Rightarrow> \<exists>y. getVersion s3 a v = Some y \<and> evolves x y"
  proof (cases "getVersion s1 a v")
    case None
    from state_evolvesD_None[OF assms(2) state_evolvesD_None[OF assms(1) None]] None
    show ?thesis by simp
  next
    case (Some x)
    from state_evolvesD_Some[OF assms(1) Some]
    obtain y where y: "getVersion s2 a v = Some y" "evolves x y" by blast
    from state_evolvesD_Some[OF assms(2) y(1)]
    obtain z where z: "getVersion s3 a v = Some z" "evolves y z" by blast
    from evolves_trans[OF y(2) z(2)] z(1) Some show ?thesis by simp
  qed
qed

lemma state_evolves_update:
  assumes e: "\<And>x. getVersion st b w = Some x \<Longrightarrow> evolves x (f x)"
    and k: "\<And>x. apiId (f x) = apiId x \<and> version (f x) = version x"
  shows "state_evolves st (st\<lparr>versionsTable := updateItem (versionsTable st) b w f\<rparr>)"
  unfolding state_evolves_def
proof (intro allI)
  fix a v
  let ?st' = "st\<lparr>versionsTable := updateItem (versionsTable st) b w f\<rparr>"
  have g: "getVersion ?st' a v
             = map_option (\<lambda>x. if same_key b w x then f x else x) (getVersion st a v)"
    by (simp add: getVersion_def getItem_updateItem[OF k])
  show "case getVersion st a v of None \<Rightarrow> getVersion ?st' a v = None
        | Some x \<Rightarrow> \<exists>y. getVersion ?st' a v = Some y \<and> evolves x y"
  proof (cases "getVersion st a v")
    case None
    with g show ?thesis by simp
  next
    case (Some x)
    then have m: "apiId x = a \<and> version x = v"
      using getItem_Some_mem[of "versionsTable st" a v x] by (simp add: getVersion_def)
    show ?thesis
    proof (cases "same_key b w x")
      case True
      with m have "a = b" "v = w" by (auto simp: same_key_def)
      with Some e have "evolves x (f x)" by simp
      with Some g True show ?thesis by simp
    next
      case False
      with Some g show ?thesis by (simp add: evolves_refl)
    qed
  qed
qed

lemma deprecateVersion_None:
  "getVersion st a v = None \<Longrightarrow> deprecateVersion st now a v plan = (Inl VersionNotFound, st)"
  by (simp add: deprecateVersion_def)

lemma deprecateVersion_wrong_status:
  "getVersion st a v = Some r \<Longrightarrow> status r \<noteq> Published
   \<Longrightarrow> deprecateVersion st now a v plan = (Inl InvalidTransition, st)"
  by (simp add: deprecateVersion_def)

lemma deprecateVersion_ok:
  "getVersion st a v = Some r \<Longrightarrow> status r = Published
   \<Longrightarrow> deprecateVersion st now a v (Some p)
       = (Inr (), st\<lparr>versionsTable := updateItem (versionsTable st) a v
                         (\<lambda>r. r\<lparr>status := Deprecated, deprecatedAt := Some now,
                                  deprecationPlan := Some p\<rparr>)\<rparr>)"
  by (simp add: deprecateVersion_def)

lemma retireVersion_wrong_status:
  "getVersion st a v = Some r \<Longrightarrow> status r \<noteq> Deprecated
   \<Longrightarrow> retireVersion st now a v = (Inl InvalidTransition, st)"
  by (simp add: retireVersion_def)

lemma retireVersion_ok:
  "getVersion st a v = Some r \<Longrightarrow> status r = Deprecated
   \<Longrightarrow> retireVersion st now a v
       = (Inr (), st\<lparr>versionsTable := updateItem (versionsTable st) a v
                         (\<lambda>r. r\<lparr>status := Retired, retiredAt := Some now\<rparr>)\<rparr>)"
  by (simp add: retireVersion_def)

lemma getVersion_update_same:
  assumes "getVersion st a v = Some r"
    and "\<And>x. apiId (f x) = apiId x \<and> version (f x) = version x"
  shows "getVersion (st\<lparr>versionsTable := updateItem (versionsTable st) a v f\<rparr>) a v = Some (f r)"
  using assms(1) getItem_Some_mem[of "versionsTable st" a v r]
  by (simp add: getVersion_def getItem_updateItem[OF assms(2)] same_key_def)

lemma deprecateVersion_evolves: "state_evolves st (snd (deprecateVersion st now b w plan))"
proof (cases "getVersion st b w")
  case None
  then show ?thesis by (simp add: deprecateVersion_None state_evolves_refl)
next
  case (Some r)
  show ?thesis
  proof (cases "status r = Published \<and> plan \<noteq> None")
    case False
    with Some show ?thesis
      by (auto simp: deprecateVersion_def state_evolves_refl split: option.splits)
  next
    case True
    then obtain p where p: "plan = Some p" by auto
    have "state_evolves st (st\<lparr>versionsTable := updateItem (versionsTable st) b w
            (\<lambda>r. r\<lparr>status := Deprecated, deprecatedAt := Some now, deprecationPlan := Some p\<rparr>)\<rparr>)"
    proof (rule state_evolves_update)
      fix x assume "getVersion st b w = Some x"
      with Some True have "status x = Published" by simp
      then show "evolves x (x\<lparr>status := Deprecated, deprecatedAt := Some now, deprecationPlan := Some p\<rparr>)"
        by (simp add: evolves_def status_rank_def)
    qed simp
    with Some True p show ?thesis by (simp add: deprecateVersion_ok)
  qed
qed


lemma retireVersion_evolves: "state_evolves st (snd (retireVersion st now b w))"
proof (cases "getVersion st b w")
  case None
  then show ?thesis by (simp add: retireVersion_def state_evolves_refl)
next
  case (Some r)
  show ?thesis
  proof (cases "status r = Deprecated")
    case False
    with Some show ?thesis by (simp add: retireVersion_wrong_status state_evolves_refl)
  next
    case True
    have "state_evolves st (st\<lparr>versionsTable := updateItem (versionsTable st) b w
            (\<lambda>r. r\<lparr>status := Retired, retiredAt := Some now\<rparr>)\<rparr>)"
    proof (rule state_evolves_update)
      fix x assume "getVersion st b w = Some x"
      with Some True have "status x = Deprecated" by simp
      then show "evolves x (x\<lparr>status := Retired, retiredAt := Some now\<rparr>)"
        by (simp add: evolves_def status_rank_def)
    qed simp
    with Some True show ?thesis by (simp add: retireVersion_ok)
  qed
qed

lemma deprecateEach_evolves:
  "state_evolves st (snd (deprecateEach st now pol nv ds))"
proof (induction ds arbitrary: st)
  case Nil
  then show ?case by (simp add: state_evolves_refl)
next
  case (Cons d ds)
  show ?case
  proof (cases "toISOString (now + supportPeriod (policy pol) * 24 * 60 * 60 * 1000)")
    case (Inl e)
    then show ?thesis by (simp add: state_evolves_refl)
  next
    case (Inr t)
    let ?p = "Some \<lparr>reason = ''Exceeded maximum version policy'',
                    migrationGuide = ''Please migrate to the latest version'',
                    supportEndDate = t, replacementVersion = Some (version nv)\<rparr>"
    let ?r = "deprecateVersion st now (apiId d) (version d) ?p"
    have 1: "state_evolves st (snd ?r)" by (rule deprecateVersion_evolves)
    show ?thesis
    proof (cases "fst ?r")
      case (Inl e)
      with Inr 1 show ?thesis by (simp add: case_prod_beta)
    next
      case (Inr u)
      have "state_evolves (snd ?r) (snd (deprecateEach (snd ?r) now pol nv ds))"
        by (rule Cons.IH)
      from state_evolves_trans[OF 1 this] Inr \<open>toISOString _ = Inr t\<close>
      show ?thesis by (simp add: case_prod_beta)
    qed
  qed
qed

lemma applyLifecyclePolicy_evolves:
  "state_evolves st (snd (applyLifecyclePolicy st now nv))"
  by (auto simp: applyLifecyclePolicy_def Let_def state_evolves_refl deprecateEach_evolves
      split: option.splits sum.splits)

lemma deprecateEach_others:
  "bucket (snd (deprecateEach st now pol nv ds)) = bucket st
   \<and> policiesTable (snd (deprecateEach st now pol nv ds)) = policiesTable st
   \<and> plansTable (snd (deprecateEach st now pol nv ds)) = plansTable st"
proof (induction ds arbitrary: st)
  case Nil
  then show ?case by simp
next
  case (Cons d ds)
  show ?case
    by (auto simp: Cons.IH deprecateVersion_def split: sum.splits option.splits prod.splits)
qed

lemma deprecated_by_policy_fields:
  "apiId (deprecated_by_policy now pol v x) = apiId x"
  "version (deprecated_by_policy now pol v x) = version x"
  "status (deprecated_by_policy now pol v x) = Deprecated"
  "metrics (deprecated_by_policy now pol v x) = metrics x"
  by (simp_all add: deprecated_by_policy_def)

lemma toISOString_Inr: "toISOString t = Inr t' \<Longrightarrow> t' = t"
  by (simp add: toISOString_def split: if_splits)

lemma deprecateVersion_exact:
  assumes "getVersion s a v = Some x"
  shows "\<exists>y. getVersion (snd (deprecateVersion s now b w (Some p))) a v = Some y
           \<and> (y = x \<or> (status x = Published
                 \<and> y = x\<lparr>status := Deprecated, deprecatedAt := Some now,
                          deprecationPlan := Some p\<rparr>))"
proof (cases "getVersion s b w")
  case None
  with assms show ?thesis by (simp add: deprecateVersion_None)
next
  case (Some r)
  show ?thesis
  proof (cases "status r = Published")
    case False
    with Some assms show ?thesis by (simp add: deprecateVersion_wrong_status)
  next
    case True
    let ?f = "\<lambda>r. r\<lparr>status := Deprecated, deprecatedAt := Some now, deprecationPlan := Some p\<rparr>"
    have k: "\<And>x. apiId (?f x) = apiId x \<and> version (?f x) = version x" by simp
    have g: "getVersion (snd (deprecateVersion s now b w (Some p))) a v
               = Some (if same_key b w x then ?f x else x)"
      using assms by (simp add: deprecateVersion_ok[OF Some True] getVersion_def
          getItem_updateItem[of ?f, OF k])
    from assms have m: "apiId x = a \<and> version x = v"
      using getItem_Some_mem[of "versionsTable s" a v x] by (simp add: getVersion_def)
    show ?thesis
    proof (cases "same_key b w x")
      case False
      with g show ?thesis by simp
    next
      case sk: True
      with m have "a = b" "v = w" by (auto simp: same_key_def)
      with assms Some have "x = r" by simp
      with True sk g show ?thesis by simp
    qed
  qed
qed

lemma deprecateEach_exact:
  assumes "getVersion s a v = Some x"
  shows "\<exists>y. getVersion (snd (deprecateEach s now pol nv ds)) a v = Some y
           \<and> (y = x \<or> (status x = Published \<and> y = deprecated_by_policy now pol (version nv) x))"
  using assms
proof (induction ds arbitrary: s x)
  case Nil
  then show ?case by simp
next
  case (Cons d ds)
  show ?case
  proof (cases "toISOString (now + supportPeriod (policy pol) * 24 * 60 * 60 * 1000)")
    case (Inl e)
    with Cons.prems show ?thesis by simp
  next
    case (Inr t)
    from toISOString_Inr[OF Inr] have t: "t = now + supportPeriod (policy pol) * 24 * 60 * 60 * 1000" .
    let ?p = "\<lparr>reason = ''Exceeded maximum version policy'',
               migrationGuide = ''Please migrate to the latest version'',
               supportEndDate = t, replacementVersion = Some (version nv)\<rparr>"
    let ?r = "deprecateVersion s now (apiId d) (version d) (Some ?p)"
    from deprecateVersion_exact[OF Cons.prems, of now "apiId d" "version d" ?p]
    obtain x1 where x1: "getVersion (snd ?r) a v = Some x1"
      and s1: "x1 = x \<or> (status x = Published \<and> x1 = deprecated_by_policy now pol (version nv) x)"
      by (auto simp: deprecated_by_policy_def t)
    show ?thesis
    proof (cases "fst ?r")
      case (Inl e)
      with Inr x1 s1 show ?thesis by (simp add: case_prod_beta)
    next
      case r: (Inr u)
      from Cons.IH[OF x1] obtain y where
        y: "getVersion (snd (deprecateEach (snd ?r) now pol nv ds)) a v = Some y"
        and s2: "y = x1 \<or> (status x1 = Published \<and> y = deprecated_by_policy now pol (version nv) x1)"
        by blast
      from s1 s2 have "y = x \<or> (status x = Published \<and> y = deprecated_by_policy now pol (version nv) x)"
        by (auto simp: deprecated_by_policy_fields)
      with y r Inr show ?thesis by (simp add: case_prod_beta)
    qed
  qed
qed

lemma applyLifecyclePolicy_exact:
  assumes "getVersion s a v = Some x"
  shows "\<exists>y. getVersion (snd (applyLifecyclePolicy s now nv)) a v = Some y
           \<and> (y = x \<or> (status x = Published
                 \<and> (\<exists>pol. getLifecyclePolicy s (apiId nv) = Some pol
                        \<and> y = deprecated_by_policy now pol (version nv) x)))"
proof (cases "getLifecyclePolicy s (apiId nv)")
  case None
  with assms show ?thesis by (simp add: applyLifecyclePolicy_def)
next
  case (Some pol)
  show ?thesis
  proof (cases "snd (applyLifecyclePolicy s now nv) = s")
    case True
    with assms show ?thesis by simp
  next
    case False
    with Some obtain ds where "snd (applyLifecyclePolicy s now nv) = snd (deprecateEach s now pol nv ds)"
      by (auto simp: applyLifecyclePolicy_def Let_def split: sum.splits if_splits)
    with deprecateEach_exact[OF assms, of now pol nv ds] Some show ?thesis by auto
  qed
qed

lemma applyLifecyclePolicy_within:
  assumes "getLifecyclePolicy s (apiId nv) = None
           \<or> (\<exists>pol. getLifecyclePolicy s (apiId nv) = Some pol
                 \<and> int (length (activeVersions s (apiId nv))) \<le> maxVersions (policy pol))"
  shows "applyLifecyclePolicy s now nv = (Inr (), s)"
  using assms by (auto simp: applyLifecyclePolicy_def activeVersions_def Let_def)

subsection \<open>Sorting version records\<close>

lemma semver_valid_parse: "semver_valid a \<Longrightarrow> \<exists>x. semver_parse a = Some x"
  by (simp add: semver_valid_def)

lemma semver_le_valid: "semver_le a b \<Longrightarrow> semver_valid a \<and> semver_valid b"
  by (auto simp: semver_le_def semver_compare_def semver_valid_def split: option.splits)

lemma semver_le_total: "semver_valid a \<Longrightarrow> semver_valid b \<Longrightarrow> semver_le a b \<or> semver_le b a"
proof -
  assume "semver_valid a" "semver_valid b"
  then obtain x y where p: "semver_parse a = Some x" "semver_parse b = Some y"
    by (auto simp: semver_valid_def)
  from compareSemVer_total[of x y] p show ?thesis
    by (simp add: semver_le_def semver_compare_def)
qed

lemma semver_le_refl: "semver_valid a \<Longrightarrow> semver_le a a"
  using semver_le_total[of a a] by blast

lemma semver_le_trans: "semver_le a b \<Longrightarrow> semver_le b c \<Longrightarrow> semver_le a c"
  by (auto simp: semver_le_def semver_compare_def split: option.splits
      intro: compareSemVer_trans)

lemma compare_records_le:
  "semver_valid (version x) \<Longrightarrow> semver_valid (version y) \<Longrightarrow>
   (case semver_compare (version x) (version y) of Some c \<Rightarrow> c | None \<Rightarrow> 0) \<le> 0
     \<longleftrightarrow> semver_le (version x) (version y)"
  by (auto simp: semver_le_def semver_compare_def semver_valid_def)

lemma rcompare_records_le:
  "semver_valid (version x) \<Longrightarrow> semver_valid (version y) \<Longrightarrow>
   (case semver_rcompare (version x) (version y) of Some c \<Rightarrow> c | None \<Rightarrow> 0) \<le> 0
     \<longleftrightarrow> semver_le (version y) (version x)"
  by (auto simp: semver_le_def semver_rcompare_def semver_compare_def semver_valid_def)

lemma sorted_wrt_cong_set:
  "(\<And>x y. x \<in> set xs \<Longrightarrow> y \<in> set xs \<Longrightarrow> P x y \<Longrightarrow> Q x y)
   \<Longrightarrow> sorted_wrt P xs \<Longrightarrow> sorted_wrt Q xs"
  by (induction xs) auto

lemma sortVersions_short: "length rs < 2 \<Longrightarrow> sortVersions cmp rs = Inr rs"
  by (simp add: sortVersions_def)

lemma sortVersions_perm:
  "sortVersions cmp rs = Inr s
   \<Longrightarrow> set s = set rs \<and> length s = length rs \<and> (distinct s \<longleftrightarrow> distinct rs)"
  by (auto simp: sortVersions_def set_stable_sort length_stable_sort distinct_stable_sort
      split: if_splits)

lemma sortVersions_valid:
  "sortVersions cmp rs = Inr s \<Longrightarrow> 2 \<le> length rs \<Longrightarrow> \<forall>r\<in>set rs. semver_valid (version r)"
  by (auto simp: sortVersions_def list_all_iff split: if_splits)

lemma sortVersions_compare_sorted:
  assumes "sortVersions semver_compare rs = Inr s" and "2 \<le> length rs"
  shows "sorted_wrt (\<lambda>x y. semver_le (version x) (version y)) s"
proof -
  let ?cmp = "\<lambda>x y. case semver_compare (version x) (version y) of Some c \<Rightarrow> c | None \<Rightarrow> 0"
  let ?S = "{r. semver_valid (version r)}"
  from sortVersions_valid[OF assms] have v: "set rs \<subseteq> ?S" by auto
  from assms v have s: "s = stable_sort ?cmp rs"
    by (auto simp: sortVersions_def list_all_iff split: if_splits)
  have "sorted_wrt (\<lambda>a b. ?cmp a b \<le> 0) (stable_sort ?cmp rs)"
  proof (rule sorted_stable_sort[of ?S])
    fix a b assume "a \<in> ?S" "b \<in> ?S"
    then show "?cmp a b \<le> 0 \<or> ?cmp b a \<le> 0"
      using semver_le_total[of "version a" "version b"] by (simp add: compare_records_le)
  next
    fix a b c assume "a \<in> ?S" "b \<in> ?S" "c \<in> ?S" "?cmp a b \<le> 0" "?cmp b c \<le> 0"
    then show "?cmp a c \<le> 0"
      using semver_le_trans[of "version a" "version b" "version c"]
      by (simp add: compare_records_le)
  qed (rule v)
  then show ?thesis
    unfolding s
  proof (rule sorted_wrt_cong_set[rotated])
    fix x y assume "x \<in> set (stable_sort ?cmp rs)" "y \<in> set (stable_sort ?cmp rs)" "?cmp x y \<le> 0"
    with v show "semver_le (version x) (version y)"
      by (auto simp: set_stable_sort compare_records_le subset_iff)
  qed
qed

lemma sortVersions_rcompare_sorted:
  assumes "sortVersions semver_rcompare rs = Inr s" and "2 \<le> length rs"
  shows "sorted_wrt (\<lambda>x y. semver_le (version y) (version x)) s"
proof -
  let ?cmp = "\<lambda>x y. case semver_rcompare (version x) (version y) of Some c \<Rightarrow> c | None \<Rightarrow> 0"
  let ?S = "{r. semver_valid (version r)}"
  from sortVersions_valid[OF assms] have v: "set rs \<subseteq> ?S" by auto
  from assms v have s: "s = stable_sort ?cmp rs"
    by (auto simp: sortVersions_def list_all_iff split: if_splits)
  have "sorted_wrt (\<lambda>a b. ?cmp a b \<le> 0) (stable_sort ?cmp rs)"
  proof (rule sorted_stable_sort[of ?S])
    fix a b assume "a \<in> ?S" "b \<in> ?S"
    then show "?cmp a b \<le> 0 \<or> ?cmp b a \<le> 0"
      using semver_le_total[of "version a" "version b"] by (auto simp: rcompare_records_le)
  next
    fix a b c assume "a \<in> ?S" "b \<in> ?S" "c \<in> ?S" "?cmp a b \<le> 0" "?cmp b c \<le> 0"
    then show "?cmp a c \<le> 0"
      using semver_le_trans[of "version c" "version b" "version a"]
      by (simp add: rcompare_records_le)
  qed (rule v)
  then show ?thesis
    unfolding s
  proof (rule sorted_wrt_cong_set[rotated])
    fix x y assume "x \<in> set (stable_sort ?cmp rs)" "y \<in> set (stable_sort ?cmp rs)" "?cmp x y \<le> 0"
    with v show "semver_le (version y) (version x)"
      by (auto simp: set_stable_sort rcompare_records_le subset_iff)
  qed
qed

lemma set_getVersions: "set (getVersions st a) = {x \<in> set (versionsTable st). apiId x = a}"
  by (auto simp: getVersions_def query_def)

lemma getLatestVersion_None:
  "getLatestVersion st a = Inr None \<Longrightarrow> \<forall>x\<in>set (versionsTable st). apiId x \<noteq> a"
proof -
  assume g: "getLatestVersion st a = Inr None"
  have "getVersions st a = []"
  proof (rule ccontr)
    assume n: "getVersions st a \<noteq> []"
    with g obtain s where s: "sortVersions semver_rcompare (getVersions st a) = Inr s"
      and e: "s = []"
      by (auto simp: getLatestVersion_def Let_def split: sum.splits list.splits)
    from sortVersions_perm[OF s] e n show False by simp
  qed
  then have "set (getVersions st a) = {}" by simp
  then show ?thesis unfolding set_getVersions by blast
qed

lemma getLatestVersion_Some:
  assumes g: "getLatestVersion st a = Inr (Some l)" and v: "semver_valid (version l)"
  shows "l \<in> set (versionsTable st) \<and> apiId l = a
         \<and> (\<forall>x\<in>set (versionsTable st). apiId x = a \<longrightarrow> semver_le (version x) (version l))"
proof -
  let ?vs = "getVersions st a"
  from g obtain s t where s: "sortVersions semver_rcompare ?vs = Inr s" and l: "s = l # t"
    by (auto simp: getLatestVersion_def Let_def split: sum.splits list.splits if_splits)
  from sortVersions_perm[OF s] l have m: "l \<in> set ?vs" and eq: "set s = set ?vs" by auto
  have "\<forall>x\<in>set ?vs. semver_le (version x) (version l)"
  proof (cases "2 \<le> length ?vs")
    case True
    from sortVersions_rcompare_sorted[OF s True] l
    have "\<forall>x\<in>set t. semver_le (version x) (version l)" by simp
    with semver_le_refl[OF v] l eq show ?thesis by auto
  next
    case False
    then have "sortVersions semver_rcompare ?vs = Inr ?vs" by (simp add: sortVersions_short)
    with s l have "?vs = l # t" by simp
    with False have "?vs = [l]" by (cases t) auto
    with semver_le_refl[OF v] show ?thesis by simp
  qed
  with m show ?thesis unfolding set_getVersions by auto
qed

subsection \<open>Compatibility analyzer\<close>

lemma foldl_deduction:
  "foldl (\<lambda>d change. case severity change of Critical \<Rightarrow> d + 25 | High \<Rightarrow> d + 15
                     | Medium \<Rightarrow> d + 10 | Low \<Rightarrow> d + 5) acc cs
   = acc + sum_list (map (\<lambda>c. spec_deduction (severity c)) cs)"
  by (induction cs arbitrary: acc) (auto simp: spec_deduction_def split: Severity.splits)

lemma scoreDeduction_sum:
  "scoreDeduction cs = sum_list (map (\<lambda>c. spec_deduction (severity c)) cs)"
  by (simp add: scoreDeduction_def foldl_deduction)

lemma changedMethod_same: "changedMethod up s s p m = []"
  by (simp add: changedMethod_def Let_def)

lemma changedPath_same: "changedPath up s s p = []"
  by (simp add: changedPath_def Let_def changedMethod_same)

lemma analyze_same_paths: "analyzeBreakingChanges up s s = []"
  by (simp add: analyzeBreakingChanges_def Let_def changedPath_same)

lemma compareVersions_stored:
  assumes "getVersion st a ver1 = Some v1" and "getVersion st a ver2 = Some v2"
  shows "compareVersions up st a ver1 ver2 =
           Inr \<lparr>version1 = ver1, version2 = ver2,
                compatible = (analyzeBreakingChanges up (apiSpecification v1) (apiSpecification v2) = []),
                breakingChanges = analyzeBreakingChanges up (apiSpecification v1) (apiSpecification v2),
                warnings = [],
                score = max 0 (100 - scoreDeduction
                          (analyzeBreakingChanges up (apiSpecification v1) (apiSpecification v2)))\<rparr>"
  using assms by (simp add: compareVersions_def Let_def)

text \<open>
  Claim C10. For two stored versions the report that \<open>compareVersions\<close> returns has an empty
  list of warnings.
\<close>

theorem compareVersions_warnings_empty:
  assumes "getVersion st a ver1 = Some v1" and "getVersion st a ver2 = Some v2"
  shows "\<exists>report. compareVersions up st a ver1 ver2 = Inr report \<and> warnings report = []"
  using compareVersions_stored[OF assms] by simp

theorem compareVersions_warnings_empty_witness:
  "\<exists>report. compareVersions asciiUpperCase compareState ''orders'' ''1.0.0'' ''1.1.0'' = Inr report
           \<and> warnings report = []"
  using compareVersions_warnings_empty[OF compareState_v1 compareState_v2] by simp

lemma changedMethod_type:
  "c \<in> set (changedMethod up s1 s2 p m) \<Longrightarrow> change_type c = ChangedResponseFormat"
  by (auto simp: changedMethod_def Let_def changedResponseFormat_def split: if_splits)

lemma changedPath_type:
  "c \<in> set (changedPath up s1 s2 p) \<Longrightarrow> change_type c = ChangedResponseFormat"
  by (auto simp: changedPath_def Let_def split: if_splits dest: changedMethod_type)

lemma filter_removed_other:
  "p \<notin> set ps \<Longrightarrow>
   filter (\<lambda>c. change_type c = RemovedEndpoint \<and> change_path c = p)
     (concat (map (\<lambda>q. if q \<notin> S then [removedEndpoint q] else []) ps)) = []"
  by (induction ps) (auto simp: removedEndpoint_def)

lemma filter_removed_one:
  "distinct ps \<Longrightarrow> p \<in> set ps \<Longrightarrow> p \<notin> S \<Longrightarrow>
   filter (\<lambda>c. change_type c = RemovedEndpoint \<and> change_path c = p)
     (concat (map (\<lambda>q. if q \<notin> S then [removedEndpoint q] else []) ps)) = [removedEndpoint p]"
proof (induction ps)
  case Nil
  then show ?case by simp
next
  case (Cons q ps)
  show ?case
  proof (cases "q = p")
    case True
    with Cons.prems have "p \<notin> set ps" by simp
    from filter_removed_other[OF this, of S] True Cons.prems show ?thesis
      by (simp add: removedEndpoint_def)
  next
    case False
    with Cons show ?thesis by (auto simp: removedEndpoint_def)
  qed
qed

lemma filter_changed_none:
  "filter (\<lambda>c. change_type c = RemovedEndpoint \<and> change_path c = p)
     (concat (map (\<lambda>q. if q \<in> S then changedPath up s1 s2 q else []) ps)) = []"
  by (auto simp: filter_empty_conv split: if_splits dest: changedPath_type)

lemma analyze_removed:
  assumes "distinct (map fst (paths s1))" "p \<in> fst ` set (paths s1)" "p \<notin> fst ` set (paths s2)"
  shows "filter (\<lambda>c. change_type c = RemovedEndpoint \<and> change_path c = p)
           (analyzeBreakingChanges up s1 s2) = [removedEndpoint p]"
  using assms filter_removed_one[of "map fst (paths s1)" p "fst ` set (paths s2)"]
  by (simp add: analyzeBreakingChanges_def Let_def filter_changed_none del: map_map)

text \<open>
  Claim C5. Let A and B be stored versions and let the paths of A be an object, its keys
  distinct. For every path key of A that is not a path key of B, the report of
  \<open>compareVersions\<close> for A and B has exactly one finding of type removed-endpoint for that
  path; its severity is critical; and when it is the only finding of the report the score
  is 75.
\<close>

theorem removed_endpoint_finding:
  assumes "getVersion st a verA = Some vA" and "getVersion st a verB = Some vB"
    and "distinct (map fst (paths (apiSpecification vA)))"
    and "path \<in> fst ` set (paths (apiSpecification vA))"
    and "path \<notin> fst ` set (paths (apiSpecification vB))"
  shows "\<exists>report finding. compareVersions up st a verA verB = Inr report
           \<and> filter (\<lambda>c. change_type c = RemovedEndpoint \<and> change_path c = path)
                (breakingChanges report) = [finding]
           \<and> severity finding = Critical
           \<and> (breakingChanges report = [finding] \<longrightarrow> score report = 75)"
proof -
  let ?cs = "analyzeBreakingChanges up (apiSpecification vA) (apiSpecification vB)"
  have f: "filter (\<lambda>c. change_type c = RemovedEndpoint \<and> change_path c = path) ?cs
             = [removedEndpoint path]"
    using assms(3-5) by (rule analyze_removed)
  have s: "severity (removedEndpoint path) = Critical"
    by (simp add: removedEndpoint_def)
  have "?cs = [removedEndpoint path] \<longrightarrow> max 0 (100 - scoreDeduction ?cs) = 75"
    by (simp add: scoreDeduction_sum spec_deduction_def s)
  with f s compareVersions_stored[OF assms(1,2)] show ?thesis by simp
qed

text \<open>
  In \<open>compareState\<close> the path \<^verbatim>\<open>/items\<close> of version 1.0.0 is missing from version 1.1.0:
  the finding for it is the only one and the score is 75.
\<close>

theorem removed_endpoint_finding_witness:
  "\<exists>report finding. compareVersions asciiUpperCase compareState ''orders'' ''1.0.0'' ''1.1.0'' = Inr report
           \<and> filter (\<lambda>c. change_type c = RemovedEndpoint \<and> change_path c = ''/items'')
                (breakingChanges report) = [finding]
           \<and> severity finding = Critical
           \<and> breakingChanges report = [finding]
           \<and> score report = 75"
proof -
  let ?vA = "exampleVersion ''1.0.0'' Published [(''/orders'', getEndpoint), (''/items'', getEndpoint)]"
  let ?vB = "exampleVersion ''1.1.0'' Draft [(''/orders'', getEndpoint)]"
  have d: "distinct (map fst (paths (apiSpecification ?vA)))"
    by (simp add: example_eval)
  have i: "''/items'' \<in> fst ` set (paths (apiSpecification ?vA))"
    by (simp add: example_eval)
  have n: "''/items'' \<notin> fst ` set (paths (apiSpecification ?vB))"
    by (simp add: example_eval)
  from removed_endpoint_finding[OF compareState_v1 compareState_v2 d i n]
  obtain report finding where
    r: "compareVersions asciiUpperCase compareState ''orders'' ''1.0.0'' ''1.1.0'' = Inr report"
    and f: "filter (\<lambda>c. change_type c = RemovedEndpoint \<and> change_path c = ''/items'')
              (breakingChanges report) = [finding]"
    and s: "severity finding = Critical"
    and o: "breakingChanges report = [finding] \<longrightarrow> score report = 75"
    by blast
  have "breakingChanges report = [removedEndpoint ''/items'']"
    using r
    by (auto simp: compareVersions_stored[OF compareState_v1 compareState_v2] example_eval
        analyzeBreakingChanges_def changedPath_def changedMethod_def Let_def getEndpoint_def
        Object_keys_def truthy_def getProp_def)
  with f have "breakingChanges report = [finding]"
    by (simp add: removedEndpoint_def)
  with r f s o show ?thesis by blast
qed

lemma changedMethod_severity:
  "c \<in> set (changedMethod up s1 s2 p m) \<Longrightarrow> severity c = High"
  by (auto simp: changedMethod_def Let_def changedResponseFormat_def split: if_splits)

lemma changedPath_severity:
  "c \<in> set (changedPath up s1 s2 p) \<Longrightarrow> severity c = High"
  by (auto simp: changedPath_def Let_def split: if_splits dest: changedMethod_severity)

lemma analyze_kinds:
  assumes "c \<in> set (analyzeBreakingChanges up s1 s2)"
  shows "change_type c = RemovedEndpoint \<and> severity c = Critical
         \<or> change_type c = ChangedResponseFormat \<and> severity c = High"
  using assms
  by (auto simp: analyzeBreakingChanges_def Let_def removedEndpoint_def split: if_splits
      dest: changedPath_type changedPath_severity)

lemma length_removed:
  "length (concat (map (\<lambda>q. if q \<notin> S then [removedEndpoint q] else []) ps))
     = length (filter (\<lambda>q. q \<notin> S) ps)"
  by (induction ps) auto

lemma filter_removed_all:
  "filter (\<lambda>c. change_type c = RemovedEndpoint)
     (concat (map (\<lambda>q. if q \<notin> S then [removedEndpoint q] else []) ps))
     = concat (map (\<lambda>q. if q \<notin> S then [removedEndpoint q] else []) ps)"
  by (induction ps) (auto simp: removedEndpoint_def)

lemma filter_changed_removed:
  "filter (\<lambda>c. change_type c = RemovedEndpoint)
     (concat (map (\<lambda>q. if q \<in> S then changedPath up s1 s2 q else []) ps)) = []"
  by (auto simp: filter_empty_conv split: if_splits dest: changedPath_type)

lemma analyze_removed_count:
  "length (filter (\<lambda>c. change_type c = RemovedEndpoint) (analyzeBreakingChanges up s1 s2))
     = length (filter (\<lambda>p. p \<notin> fst ` set (paths s2)) (map fst (paths s1)))"
  by (simp add: analyzeBreakingChanges_def Let_def filter_removed_all filter_changed_removed
      length_removed del: map_map)

lemma sum_deduction_kinds:
  assumes "\<forall>c\<in>set cs. change_type c = RemovedEndpoint \<and> severity c = Critical
                    \<or> change_type c = ChangedResponseFormat \<and> severity c = High"
  shows "sum_list (map (\<lambda>c. spec_deduction (severity c)) cs)
           = 25 * int (length (filter (\<lambda>c. change_type c = RemovedEndpoint) cs))
             + 15 * int (length (filter (\<lambda>c. change_type c = ChangedResponseFormat) cs))"
  using assms by (induction cs) (auto simp: spec_deduction_def)

lemma floorState_v1:
  "getVersion floorState ''orders'' ''1.0.0''
     = Some (exampleVersion ''1.0.0'' Published floorSpecification)"
  by code_simp

lemma floorState_v2:
  "getVersion floorState ''orders'' ''2.0.0'' = Some (exampleVersion ''2.0.0'' Draft [])"
  by code_simp

lemma compareState_findings:
  "analyzeBreakingChanges asciiUpperCase
     (apiSpecification (exampleVersion ''1.0.0'' Published
        [(''/orders'', getEndpoint), (''/items'', getEndpoint)]))
     (apiSpecification (exampleVersion ''1.1.0'' Draft [(''/orders'', getEndpoint)]))
   = [removedEndpoint ''/items'']"
  by code_simp

lemma floorState_findings:
  "analyzeBreakingChanges asciiUpperCase
     (apiSpecification (exampleVersion ''1.0.0'' Published floorSpecification))
     (apiSpecification (exampleVersion ''2.0.0'' Draft []))
   = map removedEndpoint [''/a'', ''/b'', ''/c'', ''/d'', ''/e'']"
  by code_simp

text \<open>
  Claim C4. For two stored versions \<open>compareVersions\<close> returns a report on those two
  versions whose breaking changes are the findings of the analyzer on the two stored
  specifications. Every finding is a removed endpoint of severity critical or a changed
  response format of severity high, and there are as many removed-endpoint findings as
  paths of the first specification that the second lacks. The score is \<open>max 0 (100 - d)\<close>,
  where \<open>d\<close> is the sum over the breaking changes of the deduction for their severity
  (critical 25, high 15, medium 10, low 5), that is 25 for each removed endpoint and 15
  for each changed response format; \<open>compatible\<close> holds exactly when the list of breaking
  changes is empty; and two versions with the same specification give \<open>compatible\<close>, no
  breaking change and score 100.
\<close>

theorem compareVersions_score:
  assumes "getVersion st a ver1 = Some v1" and "getVersion st a ver2 = Some v2"
  shows "\<exists>report. compareVersions up st a ver1 ver2 = Inr report
           \<and> version1 report = ver1 \<and> version2 report = ver2
           \<and> breakingChanges report
               = analyzeBreakingChanges up (apiSpecification v1) (apiSpecification v2)
           \<and> (\<forall>c\<in>set (breakingChanges report).
                 change_type c = RemovedEndpoint \<and> severity c = Critical
                 \<or> change_type c = ChangedResponseFormat \<and> severity c = High)
           \<and> length (filter (\<lambda>c. change_type c = RemovedEndpoint) (breakingChanges report))
               = length (filter (\<lambda>p. p \<notin> fst ` set (paths (apiSpecification v2)))
                          (map fst (paths (apiSpecification v1))))
           \<and> score report
               = max 0 (100 - sum_list (map (\<lambda>c. spec_deduction (severity c)) (breakingChanges report)))
           \<and> score report
               = max 0 (100
                   - 25 * int (length (filter (\<lambda>c. change_type c = RemovedEndpoint)
                                        (breakingChanges report)))
                   - 15 * int (length (filter (\<lambda>c. change_type c = ChangedResponseFormat)
                                        (breakingChanges report))))
           \<and> (compatible report \<longleftrightarrow> breakingChanges report = [])
           \<and> (apiSpecification v1 = apiSpecification v2
                \<longrightarrow> compatible report \<and> breakingChanges report = [] \<and> score report = 100)"
proof -
  let ?cs = "analyzeBreakingChanges up (apiSpecification v1) (apiSpecification v2)"
  have k: "\<forall>c\<in>set ?cs. change_type c = RemovedEndpoint \<and> severity c = Critical
                    \<or> change_type c = ChangedResponseFormat \<and> severity c = High"
    using analyze_kinds by blast
  have s: "max 0 (100 - scoreDeduction ?cs)
            = max 0 (100
                   - 25 * int (length (filter (\<lambda>c. change_type c = RemovedEndpoint) ?cs))
                   - 15 * int (length (filter (\<lambda>c. change_type c = ChangedResponseFormat) ?cs)))"
    unfolding scoreDeduction_sum sum_deduction_kinds[OF k] by simp
  have e: "apiSpecification v1 = apiSpecification v2 \<longrightarrow> ?cs = []"
    by (auto simp: analyze_same_paths)
  show ?thesis
    unfolding compareVersions_stored[OF assms]
    using k s e analyze_removed_count[of up "apiSpecification v1" "apiSpecification v2"]
    by (simp add: scoreDeduction_sum)
qed

text \<open>
  Version 1.1.0 of \<open>compareState\<close> lacks one path of version 1.0.0: one finding, score 75.
  Version 2.0.0 of \<open>floorState\<close> lacks the five paths of version 1.0.0: five findings, and
  the score 100 - 125 is raised to 0.
\<close>

theorem compareVersions_score_witness:
  "(\<exists>report. compareVersions asciiUpperCase compareState ''orders'' ''1.0.0'' ''1.1.0'' = Inr report
      \<and> breakingChanges report = [removedEndpoint ''/items'']
      \<and> \<not> compatible report \<and> score report = 75)
   \<and> (\<exists>report. compareVersions asciiUpperCase floorState ''orders'' ''1.0.0'' ''2.0.0'' = Inr report
      \<and> length (breakingChanges report) = 5
      \<and> \<not> compatible report \<and> score report = 0)"
proof -
  from compareVersions_score[OF compareState_v1 compareState_v2, of asciiUpperCase]
  have 1: "\<exists>report. compareVersions asciiUpperCase compareState ''orders'' ''1.0.0'' ''1.1.0'' = Inr report
      \<and> breakingChanges report = [removedEndpoint ''/items'']
      \<and> \<not> compatible report \<and> score report = 75"
    unfolding compareState_findings
    by (auto simp: spec_deduction_def removedEndpoint_def)
  from compareVersions_score[OF floorState_v1 floorState_v2, of asciiUpperCase]
  have 2: "\<exists>report. compareVersions asciiUpperCase floorState ''orders'' ''1.0.0'' ''2.0.0'' = Inr report
      \<and> length (breakingChanges report) = 5
      \<and> \<not> compatible report \<and> score report = 0"
    unfolding floorState_findings
    by (auto simp: spec_deduction_def removedEndpoint_def)
  from 1 2 show ?thesis by blast
qed

subsection \<open>Migration plan generator\<close>

lemma steps_canary:
  "map step_id (generateMigrationSteps ''canary'' rep)
     = [''prep-1'', ''deploy-1'', ''deploy-2'', ''deploy-3'', ''cleanup-1'']
   \<and> map step_name (generateMigrationSteps ''canary'' rep)
     = [''Pre-deployment Validation'', ''Deploy Canary (10%)'', ''Increase to 50%'',
        ''Full Deployment'', ''Cleanup Old Resources'']"
  by (simp add: generateMigrationSteps_def mkStep_def Let_def)

lemma steps_chain:
  "map dependencies (tl (generateMigrationSteps strat rep))
     = map (\<lambda>s. [step_id s]) (butlast (generateMigrationSteps strat rep))"
  by (simp add: generateMigrationSteps_def mkStep_def Let_def)

lemma steps_bookends:
  "2 \<le> length (generateMigrationSteps strat rep)
   \<and> step_name (hd (generateMigrationSteps strat rep)) = ''Pre-deployment Validation''
   \<and> step_type (hd (generateMigrationSteps strat rep)) = Preparation
   \<and> step_name (last (generateMigrationSteps strat rep)) = ''Cleanup Old Resources''
   \<and> step_type (last (generateMigrationSteps strat rep)) = Cleanup
   \<and> dependencies (last (generateMigrationSteps strat rep))
       = [step_id (last (butlast (generateMigrationSteps strat rep)))]"
  by (simp add: generateMigrationSteps_def mkStep_def Let_def)

lemma createMigrationPlan_steps:
  "createMigrationPlan up st now rnd a fromV toV strat = (Inr plan, st')
   \<Longrightarrow> \<exists>rep. steps plan = generateMigrationSteps strat rep"
  by (auto simp: createMigrationPlan_def Let_def split: sum.splits)

lemma createMigrationPlan_stored:
  assumes "getVersion st a fromV = Some v1" and "getVersion st a toV = Some v2"
  shows "\<exists>plan st'. createMigrationPlan up st now rnd a fromV toV strat = (Inr plan, st')"
  using compareVersions_stored[OF assms] by (simp add: createMigrationPlan_def Let_def)

text \<open>
  Claim C6. Every plan that \<open>createMigrationPlan\<close> returns has at least two steps; the
  first is the preparation step "Pre-deployment Validation", the last is the cleanup step
  "Cleanup Old Resources", and every step after the first, the last included, lists as its
  dependencies exactly the identifier of the step before it. For the strategy canary the
  steps are, in this order, prep-1 (Pre-deployment Validation), deploy-1 (Deploy Canary
  (10%)), deploy-2 (Increase to 50%), deploy-3 (Full Deployment) and cleanup-1 (Cleanup Old
  Resources).
\<close>

theorem migration_plan_steps:
  assumes "createMigrationPlan up st now rnd a fromV toV strat = (Inr plan, st')"
  shows "(strat = ''canary'' \<longrightarrow>
            map step_id (steps plan)
              = [''prep-1'', ''deploy-1'', ''deploy-2'', ''deploy-3'', ''cleanup-1'']
          \<and> map step_name (steps plan)
              = [''Pre-deployment Validation'', ''Deploy Canary (10%)'', ''Increase to 50%'',
                 ''Full Deployment'', ''Cleanup Old Resources''])
       \<and> map dependencies (tl (steps plan)) = map (\<lambda>s. [step_id s]) (butlast (steps plan))
       \<and> 2 \<le> length (steps plan)
       \<and> step_name (hd (steps plan)) = ''Pre-deployment Validation''
       \<and> step_type (hd (steps plan)) = Preparation
       \<and> step_name (last (steps plan)) = ''Cleanup Old Resources''
       \<and> step_type (last (steps plan)) = Cleanup
       \<and> dependencies (last (steps plan)) = [step_id (last (butlast (steps plan)))]"
proof -
  from createMigrationPlan_steps[OF assms] obtain rep
    where s: "steps plan = generateMigrationSteps strat rep" by blast
  show ?thesis
    unfolding s using steps_canary[of rep] steps_chain[of strat rep] steps_bookends[of strat rep]
    by blast
qed

theorem migration_plan_steps_witness:
  "\<exists>plan st'. createMigrationPlan asciiUpperCase compareState 1000 ''k3x9'' ''orders'' ''1.0.0'' ''1.1.0'' ''canary''
                 = (Inr plan, st')
     \<and> map step_id (steps plan)
         = [''prep-1'', ''deploy-1'', ''deploy-2'', ''deploy-3'', ''cleanup-1'']
     \<and> map dependencies (steps plan)
         = [[], [''prep-1''], [''deploy-1''], [''deploy-2''], [''deploy-3'']]
     \<and> step_name (hd (steps plan)) = ''Pre-deployment Validation''
     \<and> step_name (last (steps plan)) = ''Cleanup Old Resources''"
proof -
  from createMigrationPlan_stored[OF compareState_v1 compareState_v2]
  obtain plan st' where
    c: "createMigrationPlan asciiUpperCase compareState 1000 ''k3x9'' ''orders'' ''1.0.0'' ''1.1.0'' ''canary''
          = (Inr plan, st')"
    by blast
  have d: "map dependencies (steps plan)
             = [[], [''prep-1''], [''deploy-1''], [''deploy-2''], [''deploy-3'']]"
    using c by (auto simp: createMigrationPlan_def generateMigrationSteps_def mkStep_def Let_def
        split: sum.splits)
  from migration_plan_steps[OF c]
  have "map step_id (steps plan)
          = [''prep-1'', ''deploy-1'', ''deploy-2'', ''deploy-3'', ''cleanup-1'']
        \<and> step_name (hd (steps plan)) = ''Pre-deployment Validation''
        \<and> step_name (last (steps plan)) = ''Cleanup Old Resources''"
    by simp
  with c d show ?thesis by (intro exI[of _ plan] exI[of _ st']) simp
qed

subsection \<open>Creating a version\<close>

lemma createVersion_cases:
  "createVersion st now vd =
     (if \<not> semver_valid (version vd) then (Inl InvalidVersionFormat, st)
      else if getVersion st (apiId vd) (version vd) \<noteq> None then (Inl DuplicateVersion, st)
      else case getLatestVersion st (apiId vd) of
             Inl e \<Rightarrow> (Inl e, st)
           | Inr None \<Rightarrow>
               (case applyLifecyclePolicy (persisted st (newRecord now Patch vd)) now
                       (newRecord now Patch vd) of
                  (Inl e, st3) \<Rightarrow> (Inl e, st3)
                | (Inr u, st3) \<Rightarrow> (Inr (newRecord now Patch vd), st3))
           | Inr (Some latest) \<Rightarrow>
               (case semver_diff (version latest) (version vd) of
                  None \<Rightarrow> (Inl InvalidVersionTypeError, st)
                | Some d \<Rightarrow>
                    (case applyLifecyclePolicy (persisted st (newRecord now (classifyDiff d) vd)) now
                            (newRecord now (classifyDiff d) vd) of
                       (Inl e, st3) \<Rightarrow> (Inl e, st3)
                     | (Inr u, st3) \<Rightarrow> (Inr (newRecord now (classifyDiff d) vd), st3))))"
  unfolding createVersion_def persisted_def newRecord_def classifyDiff_def Let_def
  by (simp split: option.splits sum.splits)

lemma newRecord_fields:
  "apiId (newRecord now level vd) = apiId vd"
  "version (newRecord now level vd) = version vd"
  "status (newRecord now level vd) = status vd"
  "compatibilityLevel (newRecord now level vd) = level"
  "metrics (newRecord now level vd)
     = \<lparr>requests = 0, errors = 0, responseTime = 0, uptime = 100, adoption = 0\<rparr>"
  by (simp_all add: newRecord_def)

lemma getVersion_persisted:
  "getVersion (persisted st r) a v = (if same_key a v r then Some r else getVersion st a v)"
  by (simp add: persisted_def storeSpecification_def getVersion_def getItem_putItem)

lemma persisted_tables:
  "versionsTable (persisted st r) = putItem (versionsTable st) r"
  "policiesTable (persisted st r) = policiesTable st"
  "plansTable (persisted st r) = plansTable st"
  by (simp_all add: persisted_def storeSpecification_def)

lemma createVersion_success:
  assumes "createVersion st now vd = (Inr r, st')"
  shows "semver_valid (version vd) \<and> getVersion st (apiId vd) (version vd) = None
         \<and> (\<exists>level. r = newRecord now level vd
               \<and> applyLifecyclePolicy (persisted st r) now r = (Inr (), st')
               \<and> (getLatestVersion st (apiId vd) = Inr None \<and> level = Patch
                    \<or> (\<exists>l d. getLatestVersion st (apiId vd) = Inr (Some l)
                          \<and> semver_diff (version l) (version vd) = Some d
                          \<and> level = classifyDiff d)))"
  using assms unfolding createVersion_cases
  by (auto split: if_splits sum.splits option.splits prod.splits)

lemma snd_case_result:
  "snd (case p of (Inl e, s) \<Rightarrow> (Inl e, s) | (Inr u, s) \<Rightarrow> (Inr r, s)) = snd p"
  by (cases p; cases "fst p") auto

lemma createVersion_state:
  "snd (createVersion st now vd) = st
   \<or> (getVersion st (apiId vd) (version vd) = None
       \<and> (\<exists>level. snd (createVersion st now vd)
             = snd (applyLifecyclePolicy (persisted st (newRecord now level vd)) now
                     (newRecord now level vd))))"
proof (cases "semver_valid (version vd) \<and> getVersion st (apiId vd) (version vd) = None")
  case False
  then show ?thesis unfolding createVersion_cases by auto
next
  case True
  show ?thesis
  proof (cases "getLatestVersion st (apiId vd)")
    case (Inl e)
    with True show ?thesis unfolding createVersion_cases by simp
  next
    case (Inr latest)
    show ?thesis
    proof (cases latest)
      case None
      with Inr True have "snd (createVersion st now vd)
             = snd (applyLifecyclePolicy (persisted st (newRecord now Patch vd)) now
                     (newRecord now Patch vd))"
        unfolding createVersion_cases by (simp add: snd_case_result)
      with True show ?thesis by blast
    next
      case (Some l)
      show ?thesis
      proof (cases "semver_diff (version l) (version vd)")
        case None
        with Some Inr True show ?thesis unfolding createVersion_cases by simp
      next
        case d: (Some d)
        with Some Inr True have "snd (createVersion st now vd)
             = snd (applyLifecyclePolicy (persisted st (newRecord now (classifyDiff d) vd)) now
                     (newRecord now (classifyDiff d) vd))"
          unfolding createVersion_cases by (simp add: snd_case_result)
        with True show ?thesis by blast
      qed
    qed
  qed
qed

lemma createVersion_keeps:
  assumes "getVersion st a v = Some x"
  shows "\<exists>y. getVersion (snd (createVersion st now vd)) a v = Some y \<and> evolves x y"
proof -
  from createVersion_state[of st now vd]
  show ?thesis
  proof
    assume "snd (createVersion st now vd) = st"
    with assms show ?thesis by (auto simp: evolves_refl)
  next
    assume "getVersion st (apiId vd) (version vd) = None
       \<and> (\<exists>level. snd (createVersion st now vd)
             = snd (applyLifecyclePolicy (persisted st (newRecord now level vd)) now
                     (newRecord now level vd)))"
    then obtain level where n: "getVersion st (apiId vd) (version vd) = None"
      and s: "snd (createVersion st now vd)
             = snd (applyLifecyclePolicy (persisted st (newRecord now level vd)) now
                     (newRecord now level vd))" by blast
    from n assms have "\<not> same_key a v (newRecord now level vd)"
      by (auto simp: same_key_def newRecord_fields)
    with assms have "getVersion (persisted st (newRecord now level vd)) a v = Some x"
      by (simp add: getVersion_persisted)
    from state_evolvesD_Some[OF applyLifecyclePolicy_evolves this] s
    show ?thesis by simp
  qed
qed

lemma deprecateVersion_not_format:
  "fst (deprecateVersion s now a v p) \<noteq> Inl InvalidVersionFormat"
  by (simp add: deprecateVersion_def split: option.splits)

lemma deprecateEach_not_format:
  "fst (deprecateEach s now pol nv ds) \<noteq> Inl InvalidVersionFormat"
proof (induction ds arbitrary: s)
  case Nil
  then show ?case by simp
next
  case (Cons d ds)
  show ?case
  proof (cases "toISOString (now + supportPeriod (policy pol) * 24 * 60 * 60 * 1000)")
    case (Inl e)
    then have "e = InvalidTimeValue" by (simp add: toISOString_def split: if_splits)
    with Inl show ?thesis by simp
  next
    case (Inr t)
    let ?r = "deprecateVersion s now (apiId d) (version d)
                (Some \<lparr>reason = ''Exceeded maximum version policy'',
                       migrationGuide = ''Please migrate to the latest version'',
                       supportEndDate = t, replacementVersion = Some (version nv)\<rparr>)"
    show ?thesis
    proof (cases "fst ?r")
      case (Inl e)
      with deprecateVersion_not_format[of s now "apiId d" "version d"] Inr
      show ?thesis by (auto simp: case_prod_beta)
    next
      case r: (Inr u)
      with Inr Cons.IH[of "snd ?r"] show ?thesis by (simp add: case_prod_beta)
    qed
  qed
qed

lemma sortVersions_not_format: "sortVersions cmp rs \<noteq> Inl InvalidVersionFormat"
  by (simp add: sortVersions_def)

lemma applyLifecyclePolicy_not_format:
  "fst (applyLifecyclePolicy s now nv) \<noteq> Inl InvalidVersionFormat"
  using sortVersions_not_format deprecateEach_not_format
  by (auto simp: applyLifecyclePolicy_def Let_def split: option.splits sum.splits)

lemma getLatestVersion_not_format: "getLatestVersion st a \<noteq> Inl InvalidVersionFormat"
  using sortVersions_not_format
  by (auto simp: getLatestVersion_def Let_def split: sum.splits)

lemma fst_case_result:
  "fst (case p of (Inl e, s) \<Rightarrow> (Inl e, s) | (Inr u, s) \<Rightarrow> (Inr r, s))
     = (case fst p of Inl e \<Rightarrow> Inl e | Inr u \<Rightarrow> Inr r)"
  by (cases p; cases "fst p") auto

lemma createVersion_valid_not_format:
  assumes "semver_valid (version vd)"
  shows "fst (createVersion st now vd) \<noteq> Inl InvalidVersionFormat"
proof (cases "getVersion st (apiId vd) (version vd)")
  case (Some x)
  with assms show ?thesis unfolding createVersion_cases by simp
next
  case None
  show ?thesis
  proof (cases "getLatestVersion st (apiId vd)")
    case (Inl e)
    with getLatestVersion_not_format[of st "apiId vd"] assms None show ?thesis
      unfolding createVersion_cases by simp
  next
    case (Inr latest)
    have a: "(case fst (applyLifecyclePolicy s now nv) of Inl e \<Rightarrow> Inl e | Inr u \<Rightarrow> Inr r)
               \<noteq> Inl InvalidVersionFormat" for s nv r
      using applyLifecyclePolicy_not_format[of s now nv] by (auto split: sum.splits)
    show ?thesis
    proof (cases latest)
      case n: None
      from a[of "newRecord now Patch vd" "persisted st (newRecord now Patch vd)"
                "newRecord now Patch vd"]
        n Inr assms None
      show ?thesis unfolding createVersion_cases by (simp add: fst_case_result)
    next
      case (Some l)
      show ?thesis
      proof (cases "semver_diff (version l) (version vd)")
        case n: None
        with Some Inr assms None show ?thesis unfolding createVersion_cases by simp
      next
        case d: (Some d)
        from a[of "newRecord now (classifyDiff d) vd"
                  "persisted st (newRecord now (classifyDiff d) vd)"
                  "newRecord now (classifyDiff d) vd"]
          d Some Inr assms None
        show ?thesis unfolding createVersion_cases by (simp add: fst_case_result)
      qed
    qed
  qed
qed

text \<open>
  Claim C8, amended. \<open>createVersion\<close> fails with \<open>InvalidVersionFormat\<close> exactly when the
  version string, after the removal of the white space around it and of one leading
  \<^verbatim>\<open>v\<close>, is not valid semantic-version syntax, or is longer than 256 characters, or has a
  major, minor or patch number above \<open>2^53 - 1\<close>; the failure then returns the state it was
  given: no table and no bucket has been written. The string \<^verbatim>\<open>v1\<close> is rejected.
\<close>

theorem createVersion_invalid_format:
  "(fst (createVersion st now vd) = Inl InvalidVersionFormat
      \<longleftrightarrow> \<not> (js_length (version vd) \<le> MAX_LENGTH
              \<and> spec_semver_syntax (strip_v (trim (version vd)))
              \<and> list_all (\<lambda>n. str_to_int n \<le> MAX_SAFE_INTEGER)
                    (numbers_of (strip_v (trim (version vd))))))
   \<and> (fst (createVersion st now vd) = Inl InvalidVersionFormat
        \<longrightarrow> snd (createVersion st now vd) = st)"
proof (cases "semver_valid (version vd)")
  case True
  with createVersion_valid_not_format[OF True, of st now] show ?thesis
    by (simp add: semver_valid_iff)
next
  case False
  then have "createVersion st now vd = (Inl InvalidVersionFormat, st)"
    unfolding createVersion_cases by simp
  with False show ?thesis by (simp add: semver_valid_iff)
qed

text \<open>The version string \<^verbatim>\<open>v1\<close> is rejected and the state is returned as it was.\<close>

theorem createVersion_invalid_format_witness:
  "fst (createVersion (exampleState [] []) 1000 (exampleVersion ''v1'' Draft []))
     = Inl InvalidVersionFormat
   \<and> snd (createVersion (exampleState [] []) 1000 (exampleVersion ''v1'' Draft []))
       = exampleState [] []
   \<and> \<not> spec_semver_syntax (strip_v (trim ''v1''))"
proof -
  have n: "\<not> spec_semver_syntax (strip_v (trim (version (exampleVersion ''v1'' Draft []))))"
    by code_simp
  have v: "version (exampleVersion ''v1'' Draft []) = ''v1''"
    by (simp add: exampleVersion_def)
  from createVersion_invalid_format[of "exampleState [] []" 1000 "exampleVersion ''v1'' Draft []"] n
  show ?thesis by (simp add: v)
qed

text \<open>
  The claim as the spec words it fails for a string that is not valid semantic-version
  syntax only by a leading \<^verbatim>\<open>v\<close> or by white space around it: \<^verbatim>\<open>semver.valid\<close> accepts
  it, and the version is created and stored under the string as given.
\<close>

theorem createVersion_invalid_format_counterexample:
  "\<not> spec_semver_syntax '' v1.2.3 ''
   \<and> createVersion (exampleState [] []) 1000 (exampleVersion '' v1.2.3 '' Draft [])
       = (Inr (newRecord 1000 Patch (exampleVersion '' v1.2.3 '' Draft [])),
          persisted (exampleState [] []) (newRecord 1000 Patch (exampleVersion '' v1.2.3 '' Draft [])))
   \<and> \<not> spec_semver_syntax ''v1.2.3''
   \<and> createVersion (exampleState [] []) 1000 (exampleVersion ''v1.2.3'' Draft [])
       = (Inr (newRecord 1000 Patch (exampleVersion ''v1.2.3'' Draft [])),
          persisted (exampleState [] []) (newRecord 1000 Patch (exampleVersion ''v1.2.3'' Draft [])))"
  by code_simp

lemma empty_create:
  "createVersion (exampleState [] []) 1000 (exampleVersion ''1.0.0'' Draft [])
     = (Inr (newRecord 1000 Patch (exampleVersion ''1.0.0'' Draft [])),
        persisted (exampleState [] []) (newRecord 1000 Patch (exampleVersion ''1.0.0'' Draft [])))"
proof -
  have v: "semver_valid (version (exampleVersion ''1.0.0'' Draft []))"
    by code_simp
  have g: "getVersion (exampleState [] []) (apiId (exampleVersion ''1.0.0'' Draft []))
             (version (exampleVersion ''1.0.0'' Draft [])) = None"
    by (simp add: exampleState_def store_eval)
  have l: "getLatestVersion (exampleState [] []) (apiId (exampleVersion ''1.0.0'' Draft [])) = Inr None"
    by (simp add: getLatestVersion_def getVersions_def query_def exampleState_def)
  have a: "applyLifecyclePolicy (persisted (exampleState [] []) r) now r
             = (Inr (), persisted (exampleState [] []) r)" for r now
    by (simp add: applyLifecyclePolicy_def getLifecyclePolicy_def persisted_tables exampleState_def)
  show ?thesis
    unfolding createVersion_cases using v g l a by simp
qed

lemma semver_diff_valid:
  "semver_diff a b = Some d \<Longrightarrow> semver_valid a \<and> semver_valid b"
  by (auto simp: semver_diff_def semver_valid_def split: option.splits)

lemma createVersion_stored:
  assumes "createVersion st now vd = (Inr r, st')"
  shows "\<exists>y. getVersion st' (apiId vd) (version vd) = Some y \<and> evolves r y"
proof -
  from createVersion_success[OF assms] obtain level where
    r: "r = newRecord now level vd"
    and a: "applyLifecyclePolicy (persisted st r) now r = (Inr (), st')" by blast
  have "getVersion (persisted st r) (apiId vd) (version vd) = Some r"
    by (simp add: getVersion_persisted same_key_def r newRecord_fields)
  from state_evolvesD_Some[OF applyLifecyclePolicy_evolves this, of now r] a
  show ?thesis by simp
qed


lemma classifyDiff_simps:
  "classifyDiff (Some ''major'') = Major"
  "classifyDiff (Some ''minor'') = Minor"
  "classifyDiff (Some ''patch'') = Patch"
  by (simp_all add: classifyDiff_def)

lemma semver_diff_parse:
  "semver_diff a b = Some d \<Longrightarrow>
     \<exists>x y. semver_parse a = Some x \<and> semver_parse b = Some y \<and> d = diffSemVer x y"
  by (auto simp: semver_diff_def split: option.splits)

text \<open>
  Claim C1, amended. When \<open>createVersion\<close> succeeds, the compatibility level of the record is
  \<open>patch\<close> if the api has no stored version. Otherwise it is computed from the new version
  and a stored version of the api that has the highest semantic-version precedence among
  all its stored versions, whatever their status: where \<^verbatim>\<open>semver.diff\<close> of the two is
  \<^verbatim>\<open>major\<close> the level is major, where it is \<^verbatim>\<open>minor\<close> the level is minor, where it is
  \<^verbatim>\<open>patch\<close> the level is patch. For two versions without pre-release identifiers this
  means: major if the major numbers differ, minor if the major numbers agree and the minor
  numbers differ, patch if only the patch numbers differ. The record stored under the new
  key has that level. From 1.0.0 the diff to 1.1.0 is minor, to 2.0.0 major and to 1.0.1
  patch.
\<close>

theorem createVersion_compatibilityLevel:
  assumes "createVersion st now vd = (Inr r, st')"
  shows "((\<forall>x\<in>set (versionsTable st). apiId x \<noteq> apiId vd) \<longrightarrow> compatibilityLevel r = Patch)
       \<and> ((\<exists>x\<in>set (versionsTable st). apiId x = apiId vd) \<longrightarrow>
            (\<exists>latest lv nv. latest \<in> set (versionsTable st) \<and> apiId latest = apiId vd
               \<and> (\<forall>x\<in>set (versionsTable st).
                     apiId x = apiId vd \<longrightarrow> semver_le (version x) (version latest))
               \<and> semver_parse (version latest) = Some lv
               \<and> semver_parse (version vd) = Some nv
               \<and> (semver_diff (version latest) (version vd) = Some (Some ''major'')
                    \<longrightarrow> compatibilityLevel r = Major)
               \<and> (semver_diff (version latest) (version vd) = Some (Some ''minor'')
                    \<longrightarrow> compatibilityLevel r = Minor)
               \<and> (semver_diff (version latest) (version vd) = Some (Some ''patch'')
                    \<longrightarrow> compatibilityLevel r = Patch)
               \<and> (prerelease lv = [] \<and> prerelease nv = [] \<longrightarrow>
                    (major lv \<noteq> major nv \<longrightarrow> compatibilityLevel r = Major)
                    \<and> (major lv = major nv \<and> minor lv \<noteq> minor nv
                          \<longrightarrow> compatibilityLevel r = Minor)
                    \<and> (major lv = major nv \<and> minor lv = minor nv \<and> patch lv \<noteq> patch nv
                          \<longrightarrow> compatibilityLevel r = Patch))))
       \<and> (\<exists>y. getVersion st' (apiId vd) (version vd) = Some y
              \<and> compatibilityLevel y = compatibilityLevel r)
       \<and> semver_diff ''1.0.0'' ''1.1.0'' = Some (Some ''minor'')
       \<and> semver_diff ''1.0.0'' ''2.0.0'' = Some (Some ''major'')
       \<and> semver_diff ''1.0.0'' ''1.0.1'' = Some (Some ''patch'')"
proof -
  from createVersion_success[OF assms] obtain level where
    r: "r = newRecord now level vd"
    and l: "getLatestVersion st (apiId vd) = Inr None \<and> level = Patch
            \<or> (\<exists>l d. getLatestVersion st (apiId vd) = Inr (Some l)
                  \<and> semver_diff (version l) (version vd) = Some d \<and> level = classifyDiff d)"
    by blast
  have lev: "compatibilityLevel r = level" by (simp add: r newRecord_fields)
  have 1: "(\<forall>x\<in>set (versionsTable st). apiId x \<noteq> apiId vd) \<longrightarrow> compatibilityLevel r = Patch"
    using l
  proof
    assume "getLatestVersion st (apiId vd) = Inr None \<and> level = Patch"
    with lev show ?thesis by simp
  next
    assume "\<exists>l d. getLatestVersion st (apiId vd) = Inr (Some l)
                  \<and> semver_diff (version l) (version vd) = Some d \<and> level = classifyDiff d"
    then obtain la d where g: "getLatestVersion st (apiId vd) = Inr (Some la)"
      and d: "semver_diff (version la) (version vd) = Some d" by blast
    from semver_diff_valid[OF d] have "semver_valid (version la)" by simp
    from getLatestVersion_Some[OF g this] show ?thesis by blast
  qed
  have 2: "(\<exists>x\<in>set (versionsTable st). apiId x = apiId vd) \<longrightarrow>
            (\<exists>latest lv nv. latest \<in> set (versionsTable st) \<and> apiId latest = apiId vd
               \<and> (\<forall>x\<in>set (versionsTable st).
                     apiId x = apiId vd \<longrightarrow> semver_le (version x) (version latest))
               \<and> semver_parse (version latest) = Some lv
               \<and> semver_parse (version vd) = Some nv
               \<and> (semver_diff (version latest) (version vd) = Some (Some ''major'')
                    \<longrightarrow> compatibilityLevel r = Major)
               \<and> (semver_diff (version latest) (version vd) = Some (Some ''minor'')
                    \<longrightarrow> compatibilityLevel r = Minor)
               \<and> (semver_diff (version latest) (version vd) = Some (Some ''patch'')
                    \<longrightarrow> compatibilityLevel r = Patch)
               \<and> (prerelease lv = [] \<and> prerelease nv = [] \<longrightarrow>
                    (major lv \<noteq> major nv \<longrightarrow> compatibilityLevel r = Major)
                    \<and> (major lv = major nv \<and> minor lv \<noteq> minor nv
                          \<longrightarrow> compatibilityLevel r = Minor)
                    \<and> (major lv = major nv \<and> minor lv = minor nv \<and> patch lv \<noteq> patch nv
                          \<longrightarrow> compatibilityLevel r = Patch)))"
    using l
  proof
    assume n: "getLatestVersion st (apiId vd) = Inr None \<and> level = Patch"
    with getLatestVersion_None[of st "apiId vd"] show ?thesis by auto
  next
    assume "\<exists>l d. getLatestVersion st (apiId vd) = Inr (Some l)
                  \<and> semver_diff (version l) (version vd) = Some d \<and> level = classifyDiff d"
    then obtain la d where g: "getLatestVersion st (apiId vd) = Inr (Some la)"
      and d: "semver_diff (version la) (version vd) = Some d" and c: "level = classifyDiff d"
      by blast
    from semver_diff_valid[OF d] have "semver_valid (version la)" by simp
    note m = getLatestVersion_Some[OF g this]
    from semver_diff_parse[OF d] obtain lv nv where
      p: "semver_parse (version la) = Some lv" "semver_parse (version vd) = Some nv"
      and dd: "d = diffSemVer lv nv" by blast
    have a: "semver_diff (version la) (version vd) = Some (Some ''major'')
                    \<longrightarrow> compatibilityLevel r = Major"
      using d c lev by (auto simp: classifyDiff_simps)
    have b: "semver_diff (version la) (version vd) = Some (Some ''minor'')
                    \<longrightarrow> compatibilityLevel r = Minor"
      using d c lev by (auto simp: classifyDiff_simps)
    have e: "semver_diff (version la) (version vd) = Some (Some ''patch'')
                    \<longrightarrow> compatibilityLevel r = Patch"
      using d c lev by (auto simp: classifyDiff_simps)
    have f: "prerelease lv = [] \<and> prerelease nv = [] \<longrightarrow>
                    (major lv \<noteq> major nv \<longrightarrow> compatibilityLevel r = Major)
                    \<and> (major lv = major nv \<and> minor lv \<noteq> minor nv
                          \<longrightarrow> compatibilityLevel r = Minor)
                    \<and> (major lv = major nv \<and> minor lv = minor nv \<and> patch lv \<noteq> patch nv
                          \<longrightarrow> compatibilityLevel r = Patch)"
    proof
      assume "prerelease lv = [] \<and> prerelease nv = []"
      then have "d = (if major lv \<noteq> major nv then Some ''major''
            else if minor lv \<noteq> minor nv then Some ''minor''
            else if patch lv \<noteq> patch nv then Some ''patch''
            else None)"
        unfolding dd using diffSemVer_release[of lv nv] by simp
      with c lev show "(major lv \<noteq> major nv \<longrightarrow> compatibilityLevel r = Major)
                    \<and> (major lv = major nv \<and> minor lv \<noteq> minor nv
                          \<longrightarrow> compatibilityLevel r = Minor)
                    \<and> (major lv = major nv \<and> minor lv = minor nv \<and> patch lv \<noteq> patch nv
                          \<longrightarrow> compatibilityLevel r = Patch)"
        by (simp add: classifyDiff_simps)
    qed
    from m p a b e f show ?thesis by blast
  qed
  from createVersion_stored[OF assms]
  have 3: "\<exists>y. getVersion st' (apiId vd) (version vd) = Some y
              \<and> compatibilityLevel y = compatibilityLevel r"
    by (auto simp: evolves_def)
  have 4: "semver_diff ''1.0.0'' ''1.1.0'' = Some (Some ''minor'')"
    by code_simp
  have 5: "semver_diff ''1.0.0'' ''2.0.0'' = Some (Some ''major'')"
    by code_simp
  have 6: "semver_diff ''1.0.0'' ''1.0.1'' = Some (Some ''patch'')"
    by code_simp
  from 1 2 3 4 5 6 show ?thesis by blast
qed

lemma one_create:
  "createVersion oneState 1000 (exampleVersion ''1.1.0'' Draft [])
     = (Inr (newRecord 1000 Minor (exampleVersion ''1.1.0'' Draft [])),
        persisted oneState (newRecord 1000 Minor (exampleVersion ''1.1.0'' Draft [])))"
  by code_simp

lemma one_create_major:
  "createVersion oneState 1000 (exampleVersion ''2.0.0'' Draft [])
     = (Inr (newRecord 1000 Major (exampleVersion ''2.0.0'' Draft [])),
        persisted oneState (newRecord 1000 Major (exampleVersion ''2.0.0'' Draft [])))"
  by code_simp

lemma one_create_patch:
  "createVersion oneState 1000 (exampleVersion ''1.0.1'' Draft [])
     = (Inr (newRecord 1000 Patch (exampleVersion ''1.0.1'' Draft [])),
        persisted oneState (newRecord 1000 Patch (exampleVersion ''1.0.1'' Draft [])))"
  by code_simp

text \<open>
  After version 1.0.0 alone, version 1.1.0 is created with level minor, version 2.0.0
  with level major and version 1.0.1 with level patch.
\<close>

theorem createVersion_compatibilityLevel_witness:
  "createVersion oneState 1000 (exampleVersion ''1.1.0'' Draft [])
     = (Inr (newRecord 1000 Minor (exampleVersion ''1.1.0'' Draft [])),
        persisted oneState (newRecord 1000 Minor (exampleVersion ''1.1.0'' Draft [])))
   \<and> (\<exists>y. getVersion (persisted oneState (newRecord 1000 Minor (exampleVersion ''1.1.0'' Draft [])))
              ''orders'' ''1.1.0'' = Some y
          \<and> compatibilityLevel y = Minor)
   \<and> createVersion oneState 1000 (exampleVersion ''2.0.0'' Draft [])
     = (Inr (newRecord 1000 Major (exampleVersion ''2.0.0'' Draft [])),
        persisted oneState (newRecord 1000 Major (exampleVersion ''2.0.0'' Draft [])))
   \<and> (\<exists>y. getVersion (persisted oneState (newRecord 1000 Major (exampleVersion ''2.0.0'' Draft [])))
              ''orders'' ''2.0.0'' = Some y
          \<and> compatibilityLevel y = Major)
   \<and> createVersion oneState 1000 (exampleVersion ''1.0.1'' Draft [])
     = (Inr (newRecord 1000 Patch (exampleVersion ''1.0.1'' Draft [])),
        persisted oneState (newRecord 1000 Patch (exampleVersion ''1.0.1'' Draft [])))
   \<and> (\<exists>y. getVersion (persisted oneState (newRecord 1000 Patch (exampleVersion ''1.0.1'' Draft [])))
              ''orders'' ''1.0.1'' = Some y
          \<and> compatibilityLevel y = Patch)"
  using createVersion_compatibilityLevel[OF one_create]
    createVersion_compatibilityLevel[OF one_create_major]
    createVersion_compatibilityLevel[OF one_create_patch]
    one_create one_create_major one_create_patch
  by (simp add: newRecord_fields exampleVersion_def)

text \<open>
  The claim as the spec words it fails where the latest version is not published: with
  1.0.0 published and 2.0.0 a draft, the new version 2.0.1 is compared with 2.0.0 and gets
  the level patch, while the latest published version is 1.0.0 and the diff against it is
  major.
\<close>

theorem createVersion_compatibilityLevel_counterexample:
  "fst (createVersion draftState 1000 (exampleVersion ''2.0.1'' Draft []))
     = Inr (newRecord 1000 Patch (exampleVersion ''2.0.1'' Draft []))
   \<and> compatibilityLevel (newRecord 1000 Patch (exampleVersion ''2.0.1'' Draft [])) = Patch
   \<and> spec_compatibilityLevel draftState ''orders'' ''2.0.1'' = Some Major
   \<and> spec_latestPublished draftState ''orders'' = Some (exampleVersion ''1.0.0'' Published [])
   \<and> semver_diff ''1.0.0'' ''2.0.1'' = Some (Some ''major'')"
  by code_simp

text \<open>
  The amended claim is silent where \<^verbatim>\<open>semver.diff\<close> is none of major, minor and patch.
  There the source takes the last branch of its conditional: a pre-release of the next
  major version is stored with level patch.
\<close>

lemma createVersion_prerelease_level:
  "fst (createVersion oneState 1000 (exampleVersion ''2.0.0-rc.1'' Draft []))
     = Inr (newRecord 1000 Patch (exampleVersion ''2.0.0-rc.1'' Draft []))
   \<and> semver_diff ''1.0.0'' ''2.0.0-rc.1'' = Some (Some ''premajor'')"
  by code_simp

lemma createMigrationPlan_versions:
  "getVersion (snd (createMigrationPlan up st now rnd b fromV toV strat)) a v = getVersion st a v"
  by (simp add: createMigrationPlan_def getVersion_def Let_def split: sum.splits)

text \<open>
  Claim C2. For a stored version, \<open>deprecateVersion\<close> fails with \<open>InvalidTransition\<close> and
  leaves the state unchanged unless the status is published; on a published version, given
  a plan, it succeeds and the record becomes deprecated with \<open>deprecatedAt\<close> and the plan
  set. \<open>retireVersion\<close> fails with \<open>InvalidTransition\<close> and leaves the state unchanged unless
  the status is deprecated, and otherwise succeeds and the record becomes retired with
  \<open>retiredAt\<close> set. After any call of \<open>deprecateVersion\<close>, \<open>retireVersion\<close>,
  \<open>createVersion\<close> or \<open>createMigrationPlan\<close>, on any key and whatever its outcome, the
  stored version is still there and its status is the same or later in the order draft,
  published, deprecated, retired.
\<close>

theorem status_transitions:
  assumes "getVersion st a v = Some r"
  shows "(status r \<noteq> Published \<longrightarrow> deprecateVersion st now a v plan = (Inl InvalidTransition, st))
       \<and> (status r = Published \<longrightarrow>
            (\<exists>st'. deprecateVersion st now a v (Some p) = (Inr (), st')
               \<and> getVersion st' a v
                   = Some (r\<lparr>status := Deprecated, deprecatedAt := Some now,
                              deprecationPlan := Some p\<rparr>)))
       \<and> (status r \<noteq> Deprecated \<longrightarrow> retireVersion st now a v = (Inl InvalidTransition, st))
       \<and> (status r = Deprecated \<longrightarrow>
            (\<exists>st'. retireVersion st now a v = (Inr (), st')
               \<and> getVersion st' a v = Some (r\<lparr>status := Retired, retiredAt := Some now\<rparr>)))
       \<and> (\<forall>st'. st' = snd (deprecateVersion st now b w plan)
                  \<or> st' = snd (retireVersion st now b w)
                  \<or> st' = snd (createVersion st now vd)
                  \<or> st' = snd (createMigrationPlan up st now rnd b w w' strat)
             \<longrightarrow> (\<exists>r'. getVersion st' a v = Some r'
                    \<and> status_rank (status r) \<le> status_rank (status r')))"
proof -
  have 1: "status r \<noteq> Published \<longrightarrow> deprecateVersion st now a v plan = (Inl InvalidTransition, st)"
    using assms by (simp add: deprecateVersion_wrong_status)
  have 2: "status r = Published \<longrightarrow>
            (\<exists>st'. deprecateVersion st now a v (Some p) = (Inr (), st')
               \<and> getVersion st' a v
                   = Some (r\<lparr>status := Deprecated, deprecatedAt := Some now,
                              deprecationPlan := Some p\<rparr>))"
    using assms deprecateVersion_ok[OF assms, of now p]
      getVersion_update_same[OF assms, of "\<lambda>r. r\<lparr>status := Deprecated, deprecatedAt := Some now,
                              deprecationPlan := Some p\<rparr>"]
    by simp
  have 3: "status r \<noteq> Deprecated \<longrightarrow> retireVersion st now a v = (Inl InvalidTransition, st)"
    using assms by (simp add: retireVersion_wrong_status)
  have 4: "status r = Deprecated \<longrightarrow>
            (\<exists>st'. retireVersion st now a v = (Inr (), st')
               \<and> getVersion st' a v = Some (r\<lparr>status := Retired, retiredAt := Some now\<rparr>))"
    using assms retireVersion_ok[OF assms, of now]
      getVersion_update_same[OF assms, of "\<lambda>r. r\<lparr>status := Retired, retiredAt := Some now\<rparr>"]
    by simp
  have 5: "\<exists>r'. getVersion st' a v = Some r' \<and> status_rank (status r) \<le> status_rank (status r')"
    if "st' = snd (deprecateVersion st now b w plan)
         \<or> st' = snd (retireVersion st now b w)
         \<or> st' = snd (createVersion st now vd)
         \<or> st' = snd (createMigrationPlan up st now rnd b w w' strat)" for st'
    using that
  proof (elim disjE)
    assume "st' = snd (deprecateVersion st now b w plan)"
    with state_evolvesD_Some[OF deprecateVersion_evolves assms, of now b w plan]
    show ?thesis by (auto dest: evolves_rank)
  next
    assume "st' = snd (retireVersion st now b w)"
    with state_evolvesD_Some[OF retireVersion_evolves assms, of now b w]
    show ?thesis by (auto dest: evolves_rank)
  next
    assume "st' = snd (createVersion st now vd)"
    with createVersion_keeps[OF assms, of now vd]
    show ?thesis by (auto dest: evolves_rank)
  next
    assume "st' = snd (createMigrationPlan up st now rnd b w w' strat)"
    with assms show ?thesis by (simp add: createMigrationPlan_versions)
  qed
  from 1 2 3 4 5 show ?thesis by blast
qed

theorem status_transitions_witness:
  "(\<exists>st'. deprecateVersion compareState 1000 ''orders'' ''1.0.0'' (Some examplePlan) = (Inr (), st')
       \<and> getVersion st' ''orders'' ''1.0.0''
           = Some ((exampleVersion ''1.0.0'' Published
                      [(''/orders'', getEndpoint), (''/items'', getEndpoint)])
                    \<lparr>status := Deprecated, deprecatedAt := Some 1000,
                      deprecationPlan := Some examplePlan\<rparr>))
   \<and> retireVersion compareState 1000 ''orders'' ''1.0.0'' = (Inl InvalidTransition, compareState)
   \<and> deprecateVersion compareState 1000 ''orders'' ''1.1.0'' (Some examplePlan)
       = (Inl InvalidTransition, compareState)"
  using status_transitions[OF compareState_v1, where now = 1000 and p = examplePlan]
    status_transitions[OF compareState_v2, where now = 1000 and plan = "Some examplePlan"]
  by (simp add: exampleVersion_def)

lemma createVersion_existing:
  "semver_valid (version vd) \<Longrightarrow> getVersion st (apiId vd) (version vd) = Some x
   \<Longrightarrow> createVersion st now vd = (Inl DuplicateVersion, st)"
  unfolding createVersion_cases by simp

text \<open>
  Claim C7. After a successful \<open>createVersion\<close>, a second call with the same apiId and
  version fails with \<open>DuplicateVersion\<close> and returns the state it was given.
\<close>

theorem createVersion_duplicate:
  assumes "createVersion st now vd = (Inr r, st1)"
    and "apiId vd' = apiId vd" and "version vd' = version vd"
  shows "createVersion st1 now' vd' = (Inl DuplicateVersion, st1)"
proof -
  from createVersion_success[OF assms(1)] have v: "semver_valid (version vd')"
    using assms(3) by simp
  from createVersion_stored[OF assms(1)] obtain y
    where "getVersion st1 (apiId vd') (version vd') = Some y"
    using assms(2,3) by auto
  from createVersion_existing[OF v this] show ?thesis .
qed

theorem createVersion_duplicate_witness:
  "createVersion (exampleState [] []) 1000 (exampleVersion ''1.0.0'' Draft [])
     = (Inr (newRecord 1000 Patch (exampleVersion ''1.0.0'' Draft [])),
        persisted (exampleState [] []) (newRecord 1000 Patch (exampleVersion ''1.0.0'' Draft [])))
   \<and> createVersion
         (persisted (exampleState [] []) (newRecord 1000 Patch (exampleVersion ''1.0.0'' Draft [])))
         2000 (exampleVersion ''1.0.0'' Draft [])
       = (Inl DuplicateVersion,
          persisted (exampleState [] []) (newRecord 1000 Patch (exampleVersion ''1.0.0'' Draft [])))"
  using createVersion_duplicate[OF empty_create refl refl, of 2000] empty_create by simp


lemma getLifecyclePolicy_persisted:
  "getLifecyclePolicy (persisted st r) a = getLifecyclePolicy st a"
  by (simp add: getLifecyclePolicy_def persisted_tables)

lemma newRecord_levels:
  "newRecord now level vd
     = vd\<lparr>compatibilityLevel := level, createdAt := now,
          metrics := \<lparr>requests = 0, errors = 0, responseTime = 0, uptime = 100, adoption = 0\<rparr>\<rparr>"
  by (simp add: newRecord_def)

text \<open>
  Claim C9, amended. The record that a successful \<open>createVersion\<close> returns and writes to the
  table is the caller's record with the computed compatibility level, the creation time
  and the initial metrics snapshot: it carries the status supplied by the caller, and
  requests, errors, response time and adoption are zero and uptime is 100. No record was
  stored under its key before. When \<open>createVersion\<close> returns, the record stored under the
  key is that record, with one exception: where the caller's status is published and the
  published versions of the api, the new one included, exceed \<open>maxVersions\<close> of its
  lifecycle policy, the new version may itself be among those deprecated, and the stored
  record is then that record with status deprecated, \<open>deprecatedAt\<close> and the deprecation
  plan of the policy. Its metrics are the initial snapshot in both cases. Without a policy,
  or within its limit, the state is the given one with the record written and nothing else
  changed.
\<close>

theorem createVersion_record:
  assumes "createVersion st now vd = (Inr r, st')"
  shows "status r = status vd
       \<and> metrics r = \<lparr>requests = 0, errors = 0, responseTime = 0, uptime = 100, adoption = 0\<rparr>
       \<and> r = vd\<lparr>compatibilityLevel := compatibilityLevel r, createdAt := now,
                 metrics := \<lparr>requests = 0, errors = 0, responseTime = 0, uptime = 100,
                             adoption = 0\<rparr>\<rparr>
       \<and> getVersion st (apiId vd) (version vd) = None
       \<and> (\<exists>y. getVersion st' (apiId vd) (version vd) = Some y
              \<and> metrics y = metrics r
              \<and> (y = r
                  \<or> (status vd = Published
                      \<and> (\<exists>pol. getLifecyclePolicy st (apiId vd) = Some pol
                             \<and> maxVersions (policy pol)
                                 < int (length (activeVersions (persisted st r) (apiId vd)))
                             \<and> y = deprecated_by_policy now pol (version vd) r))))
       \<and> (getLifecyclePolicy st (apiId vd) = None \<longrightarrow> st' = persisted st r)
       \<and> (\<forall>pol. getLifecyclePolicy st (apiId vd) = Some pol
                 \<and> int (length (activeVersions (persisted st r) (apiId vd)))
                     \<le> maxVersions (policy pol)
               \<longrightarrow> st' = persisted st r)
       \<and> (status vd \<noteq> Published \<longrightarrow> getVersion st' (apiId vd) (version vd) = Some r)"
proof -
  from createVersion_success[OF assms] obtain level where
    r: "r = newRecord now level vd"
    and n: "getVersion st (apiId vd) (version vd) = None"
    and a: "applyLifecyclePolicy (persisted st r) now r = (Inr (), st')" by blast
  have k: "apiId r = apiId vd" "version r = version vd" "status r = status vd"
    by (simp_all add: r newRecord_fields)
  have 1: "status r = status vd" by (rule k)
  have 2: "metrics r = \<lparr>requests = 0, errors = 0, responseTime = 0, uptime = 100, adoption = 0\<rparr>"
    by (simp add: r newRecord_fields)
  have 3: "r = vd\<lparr>compatibilityLevel := compatibilityLevel r, createdAt := now,
                 metrics := \<lparr>requests = 0, errors = 0, responseTime = 0, uptime = 100,
                             adoption = 0\<rparr>\<rparr>"
    by (simp add: r newRecord_def)
  have p: "getVersion (persisted st r) (apiId vd) (version vd) = Some r"
    by (simp add: getVersion_persisted same_key_def k)
  have w: "getLifecyclePolicy st (apiId vd) = None
           \<or> (\<exists>pol. getLifecyclePolicy st (apiId vd) = Some pol
                 \<and> int (length (activeVersions (persisted st r) (apiId vd)))
                     \<le> maxVersions (policy pol))
           \<Longrightarrow> st' = persisted st r"
    using applyLifecyclePolicy_within[of "persisted st r" r now] a
    by (simp add: getLifecyclePolicy_persisted k)
  from applyLifecyclePolicy_exact[OF p, of now r] a
  obtain y where y: "getVersion st' (apiId vd) (version vd) = Some y"
    and s: "y = r \<or> (status vd = Published
                 \<and> (\<exists>pol. getLifecyclePolicy st (apiId vd) = Some pol
                        \<and> y = deprecated_by_policy now pol (version vd) r))"
    by (auto simp: getLifecyclePolicy_persisted k)
  have m: "metrics y = metrics r"
    using s by (auto simp: deprecated_by_policy_fields)
  have 5: "y = r
                  \<or> (status vd = Published
                      \<and> (\<exists>pol. getLifecyclePolicy st (apiId vd) = Some pol
                             \<and> maxVersions (policy pol)
                                 < int (length (activeVersions (persisted st r) (apiId vd)))
                             \<and> y = deprecated_by_policy now pol (version vd) r))"
  proof (cases "y = r")
    case True
    then show ?thesis by simp
  next
    case False
    with s obtain pol where pol: "status vd = Published"
      "getLifecyclePolicy st (apiId vd) = Some pol"
      "y = deprecated_by_policy now pol (version vd) r" by blast
    have "maxVersions (policy pol) < int (length (activeVersions (persisted st r) (apiId vd)))"
    proof (rule ccontr)
      assume "\<not> maxVersions (policy pol) < int (length (activeVersions (persisted st r) (apiId vd)))"
      with pol(2) w have "st' = persisted st r" by auto
      with p y False show False by simp
    qed
    with pol show ?thesis by blast
  qed
  have 8: "status vd \<noteq> Published \<longrightarrow> getVersion st' (apiId vd) (version vd) = Some r"
    using y s by auto
  from 1 2 3 n y m 5 w 8 show ?thesis by blast
qed

lemma zero_create:
  "createVersion zeroPolicyState 1000 (exampleVersion ''1.0.0'' Published [])
     = (Inr (newRecord 1000 Patch (exampleVersion ''1.0.0'' Published [])),
        (persisted zeroPolicyState (newRecord 1000 Patch (exampleVersion ''1.0.0'' Published [])))
          \<lparr>versionsTable :=
             [deprecated_by_policy 1000 (examplePolicy 0 30) ''1.0.0''
                (newRecord 1000 Patch (exampleVersion ''1.0.0'' Published []))]\<rparr>)"
  by code_simp

text \<open>
  A draft created in the empty state is stored as returned. A published version created
  under a policy with \<open>maxVersions = 0\<close> is returned as published and stored as deprecated.
\<close>

theorem createVersion_record_witness:
  "createVersion (exampleState [] []) 1000 (exampleVersion ''1.0.0'' Draft [])
     = (Inr (newRecord 1000 Patch (exampleVersion ''1.0.0'' Draft [])),
        persisted (exampleState [] []) (newRecord 1000 Patch (exampleVersion ''1.0.0'' Draft [])))
   \<and> status (newRecord 1000 Patch (exampleVersion ''1.0.0'' Draft [])) = Draft
   \<and> metrics (newRecord 1000 Patch (exampleVersion ''1.0.0'' Draft []))
       = \<lparr>requests = 0, errors = 0, responseTime = 0, uptime = 100, adoption = 0\<rparr>
   \<and> getVersion (persisted (exampleState [] []) (newRecord 1000 Patch (exampleVersion ''1.0.0'' Draft [])))
        ''orders'' ''1.0.0'' = Some (newRecord 1000 Patch (exampleVersion ''1.0.0'' Draft []))
   \<and> status (newRecord 1000 Patch (exampleVersion ''1.0.0'' Published [])) = Published
   \<and> (\<exists>y. getVersion (snd (createVersion zeroPolicyState 1000 (exampleVersion ''1.0.0'' Published [])))
             ''orders'' ''1.0.0'' = Some y
          \<and> y = deprecated_by_policy 1000 (examplePolicy 0 30) ''1.0.0''
                  (newRecord 1000 Patch (exampleVersion ''1.0.0'' Published []))
          \<and> status y = Deprecated
          \<and> metrics y = \<lparr>requests = 0, errors = 0, responseTime = 0, uptime = 100, adoption = 0\<rparr>)"
proof -
  have e: "status (exampleVersion ''1.0.0'' Draft []) \<noteq> Published"
    "apiId (exampleVersion ''1.0.0'' Draft []) = ''orders''"
    "version (exampleVersion ''1.0.0'' Draft []) = ''1.0.0''"
    by (simp_all add: exampleVersion_def)
  from createVersion_record[OF empty_create] e
  have 1: "status (newRecord 1000 Patch (exampleVersion ''1.0.0'' Draft [])) = Draft
   \<and> metrics (newRecord 1000 Patch (exampleVersion ''1.0.0'' Draft []))
       = \<lparr>requests = 0, errors = 0, responseTime = 0, uptime = 100, adoption = 0\<rparr>
   \<and> getVersion (persisted (exampleState [] []) (newRecord 1000 Patch (exampleVersion ''1.0.0'' Draft [])))
        ''orders'' ''1.0.0'' = Some (newRecord 1000 Patch (exampleVersion ''1.0.0'' Draft []))"
    by (simp add: exampleVersion_def)
  have g: "getVersion (snd (createVersion zeroPolicyState 1000 (exampleVersion ''1.0.0'' Published [])))
             ''orders'' ''1.0.0''
           = Some (deprecated_by_policy 1000 (examplePolicy 0 30) ''1.0.0''
                  (newRecord 1000 Patch (exampleVersion ''1.0.0'' Published [])))"
    by code_simp
  from createVersion_record[OF zero_create]
  have 2: "status (newRecord 1000 Patch (exampleVersion ''1.0.0'' Published [])) = Published"
    by (simp add: exampleVersion_def)
  have 3: "metrics (deprecated_by_policy 1000 (examplePolicy 0 30) ''1.0.0''
                  (newRecord 1000 Patch (exampleVersion ''1.0.0'' Published [])))
            = \<lparr>requests = 0, errors = 0, responseTime = 0, uptime = 100, adoption = 0\<rparr>"
    by (simp add: deprecated_by_policy_fields newRecord_fields)
  from 1 2 3 g empty_create show ?thesis
    by (simp add: deprecated_by_policy_fields)
qed

text \<open>
  The claim as stated asks for the stored record to carry the caller's status and for
  every field of the snapshot to be zero. Under a policy with \<open>maxVersions = 0\<close> the
  version created as published is stored with status deprecated, and its uptime is 100.
\<close>

theorem createVersion_record_counterexample:
  "fst (createVersion zeroPolicyState 1000 (exampleVersion ''1.0.0'' Published []))
     = Inr (newRecord 1000 Patch (exampleVersion ''1.0.0'' Published []))
   \<and> status (exampleVersion ''1.0.0'' Published []) = Published
   \<and> getVersion (snd (createVersion zeroPolicyState 1000 (exampleVersion ''1.0.0'' Published [])))
        ''orders'' ''1.0.0''
       = Some (deprecated_by_policy 1000 (examplePolicy 0 30) ''1.0.0''
                 (newRecord 1000 Patch (exampleVersion ''1.0.0'' Published [])))
   \<and> status (deprecated_by_policy 1000 (examplePolicy 0 30) ''1.0.0''
                 (newRecord 1000 Patch (exampleVersion ''1.0.0'' Published []))) = Deprecated
   \<and> uptime (metrics (deprecated_by_policy 1000 (examplePolicy 0 30) ''1.0.0''
                 (newRecord 1000 Patch (exampleVersion ''1.0.0'' Published [])))) = 100"
  by code_simp

subsection \<open>Lifecycle policy engine\<close>

lemma wf_same_key:
  "wf_table t \<Longrightarrow> x \<in> set t \<Longrightarrow> d \<in> set t \<Longrightarrow> same_key (apiId d) (version d) x \<longleftrightarrow> x = d"
  by (auto simp: wf_table_def same_key_def table_key_def distinct_map inj_on_def)

lemma wf_distinct: "wf_table t \<Longrightarrow> distinct t"
  by (auto simp: wf_table_def distinct_map)

lemma updateItem_wf_eq:
  assumes "wf_table t" "d \<in> set t"
  shows "updateItem t (apiId d) (version d) f = map (\<lambda>x. if x = d then f x else x) t"
  unfolding updateItem_def
  by (rule map_cong[OF refl]) (simp add: wf_same_key[OF assms(1) _ assms(2)])

lemma deprecateEach_success:
  assumes "wf_table (versionsTable s)" "set ds \<subseteq> set (versionsTable s)" "distinct ds"
    "\<forall>x\<in>set ds. status x = Published"
    "deprecateEach s now pol nv ds = (Inr u, s')"
  shows "versionsTable s'
           = map (\<lambda>x. if x \<in> set ds then deprecated_by_policy now pol (version nv) x else x)
               (versionsTable s)"
  using assms
proof (induction ds arbitrary: s)
  case Nil
  then show ?case by simp
next
  case (Cons d ds)
  let ?t = "versionsTable s"
  let ?upd = "deprecated_by_policy now pol (version nv)"
  from Cons.prems(5) obtain e where e: "toISOString (now + supportPeriod (policy pol) * 24 * 60 * 60 * 1000) = Inr e"
    by (auto split: sum.splits)
  from toISOString_Inr[OF e] have e': "e = now + supportPeriod (policy pol) * 24 * 60 * 60 * 1000" .
  from Cons.prems have d: "d \<in> set ?t" "status d = Published" by auto
  from getItem_wf[OF Cons.prems(1) d(1)] have g: "getVersion s (apiId d) (version d) = Some d"
    by (simp add: getVersion_def)
  let ?s1 = "s\<lparr>versionsTable := updateItem ?t (apiId d) (version d) ?upd\<rparr>"
  have dv: "deprecateVersion s now (apiId d) (version d)
              (Some \<lparr>reason = ''Exceeded maximum version policy'',
                     migrationGuide = ''Please migrate to the latest version'',
                     supportEndDate = e, replacementVersion = Some (version nv)\<rparr>)
            = (Inr (), ?s1)"
    unfolding deprecateVersion_ok[OF g d(2)] e' deprecated_by_policy_def by simp
  from Cons.prems(5) e dv have rest: "deprecateEach ?s1 now pol nv ds = (Inr u, s')"
    by simp
  have t1: "versionsTable ?s1 = map (\<lambda>x. if x = d then ?upd x else x) ?t"
    by (simp add: updateItem_wf_eq[OF Cons.prems(1) d(1)])
  have wf1: "wf_table (versionsTable ?s1)"
    using Cons.prems(1) by (simp add: wf_updateItem deprecated_by_policy_fields)
  have sub1: "set ds \<subseteq> set (versionsTable ?s1)"
  proof
    fix x assume x: "x \<in> set ds"
    with Cons.prems have "x \<in> set ?t" "x \<noteq> d" by auto
    then show "x \<in> set (versionsTable ?s1)" unfolding t1 by (auto simp: image_iff)
  qed
  from Cons.prems have "distinct ds" "\<forall>x\<in>set ds. status x = Published" by auto
  from Cons.IH[OF wf1 sub1 this rest]
  have "versionsTable s' = map (\<lambda>x. if x \<in> set ds then ?upd x else x) (versionsTable ?s1)" .
  also have "\<dots> = map (\<lambda>x. if x \<in> set (d # ds) then ?upd x else x) ?t"
    unfolding t1 map_map
  proof (rule map_cong[OF refl])
    fix x assume "x \<in> set ?t"
    have "?upd d \<notin> set ds"
      using Cons.prems(4) by (auto simp: deprecated_by_policy_fields)
    then show "((\<lambda>x. if x \<in> set ds then ?upd x else x) \<circ> (\<lambda>x. if x = d then ?upd x else x)) x
               = (if x \<in> set (d # ds) then ?upd x else x)"
      by auto
  qed
  finally show ?case .
qed

lemma getItem_map:
  assumes "\<And>x. apiId (f x) = apiId x \<and> version (f x) = version x"
  shows "getItem (map f t) a v = map_option f (getItem t a v)"
  using assms by (induction t) (auto simp: getItem_def same_key_def)

lemma length_filter_sort: "length (filter P (sort_key f xs)) = length (filter P xs)"
  by (simp add: filter_sort)

lemma length_filter_minus:
  assumes "distinct ys" "distinct ds" "set ds \<subseteq> set ys"
  shows "length (filter (\<lambda>x. x \<notin> set ds) ys) = length ys - length ds"
proof -
  have d: "distinct (filter (\<lambda>x. x \<notin> set ds) ys)" using assms(1) by simp
  have "length (filter (\<lambda>x. x \<notin> set ds) ys) = card (set (filter (\<lambda>x. x \<notin> set ds) ys))"
    using distinct_card[OF d] by simp
  also have "set (filter (\<lambda>x. x \<notin> set ds) ys) = set ys - set ds" by auto
  also have "card (set ys - set ds) = card (set ys) - card (set ds)"
    using assms(3) by (simp add: card_Diff_subset)
  finally show ?thesis using distinct_card[OF assms(1)] distinct_card[OF assms(2)] by simp
qed


lemma set_activeVersions:
  "set (activeVersions st a) = {x \<in> set (versionsTable st). apiId x = a \<and> status x = Published}"
  by (auto simp: activeVersions_def getVersions_def query_def)

lemma length_activeVersions:
  "length (activeVersions st a)
     = length (filter (\<lambda>x. apiId x = a \<and> status x = Published) (versionsTable st))"
  by (simp add: activeVersions_def getVersions_def query_def length_filter_sort conj_commute)

lemma distinct_activeVersions: "wf_table (versionsTable st) \<Longrightarrow> distinct (activeVersions st a)"
  by (simp add: activeVersions_def getVersions_def query_def wf_distinct)

lemma applyLifecyclePolicy_exceeds:
  assumes "applyLifecyclePolicy s now nv = (Inr u, s')"
    and "getLifecyclePolicy s (apiId nv) = Some pol"
    and "int (length (activeVersions s (apiId nv))) > maxVersions (policy pol)"
  shows "\<exists>sorted. sortVersions semver_compare (activeVersions s (apiId nv)) = Inr sorted
           \<and> deprecateEach s now pol nv
                (take (nat (int (length (activeVersions s (apiId nv))) - maxVersions (policy pol)))
                   sorted) = (Inr u, s')"
  using assms
  by (auto simp: applyLifecyclePolicy_def activeVersions_def Let_def split: sum.splits)

text \<open>
  Claim C3. Let \<open>createVersion\<close> succeed on a table with one item per key, let a lifecycle
  policy be configured for the api, and let the published versions of the api, counted
  after the new record is written, exceed \<open>maxVersions\<close>. Then there is a list \<open>dep\<close> of
  published versions of the api, without repetition and as long as the excess over
  \<open>maxVersions\<close> (all of them when \<open>maxVersions\<close> is negative), such that every version in
  \<open>dep\<close> precedes or equals in semantic-version precedence every published version outside
  it; each version in \<open>dep\<close> is afterwards deprecated, with \<open>deprecatedAt\<close> set and a plan
  whose \<open>supportEndDate\<close> is \<open>now\<close> plus \<open>supportPeriod\<close> days and whose
  \<open>replacementVersion\<close> is the new version; every other record of the table is unchanged;
  and the api is left with \<open>maxVersions\<close> published versions (none when \<open>maxVersions\<close> is
  negative). With six published versions and \<open>maxVersions = 5\<close> this is one deprecated
  version, the lowest in precedence, and five published ones.
\<close>

theorem lifecycle_policy_deprecates_oldest:
  assumes c: "createVersion st now vd = (Inr r, st')"
    and p: "getLifecyclePolicy st (apiId vd) = Some pol"
    and w: "wf_table (versionsTable st)"
    and x: "int (length (activeVersions (persisted st r) (apiId vd))) > maxVersions (policy pol)"
  shows "\<exists>dep. distinct dep
           \<and> set dep \<subseteq> set (activeVersions (persisted st r) (apiId vd))
           \<and> int (length dep)
               = min (int (length (activeVersions (persisted st r) (apiId vd))))
                   (int (length (activeVersions (persisted st r) (apiId vd)))
                      - maxVersions (policy pol))
           \<and> (\<forall>x\<in>set dep. \<forall>y\<in>set (activeVersions (persisted st r) (apiId vd)) - set dep.
                 semver_le (version x) (version y))
           \<and> (\<forall>x\<in>set dep. getVersion st' (apiId x) (version x)
                               = Some (deprecated_by_policy now pol (version vd) x))
           \<and> (\<forall>x\<in>set (versionsTable (persisted st r)).
                 x \<notin> set dep \<longrightarrow> getVersion st' (apiId x) (version x) = Some x)
           \<and> int (length (activeVersions st' (apiId vd))) = max 0 (maxVersions (policy pol))"
proof -
  let ?a = "apiId vd"
  let ?s2 = "persisted st r"
  let ?t2 = "versionsTable ?s2"
  let ?pubs = "activeVersions ?s2 ?a"
  let ?k = "nat (int (length ?pubs) - maxVersions (policy pol))"
  let ?upd = "deprecated_by_policy now pol (version vd)"
  from createVersion_success[OF c] obtain level where
    r: "r = newRecord now level vd"
    and a: "applyLifecyclePolicy ?s2 now r = (Inr (), st')" by blast
  have ar: "apiId r = ?a" and vr: "version r = version vd" by (simp_all add: r newRecord_fields)
  have p2: "getLifecyclePolicy ?s2 (apiId r) = Some pol"
    using p by (simp add: getLifecyclePolicy_def persisted_tables ar)
  from applyLifecyclePolicy_exceeds[OF a p2] x ar obtain sorted where
    so: "sortVersions semver_compare ?pubs = Inr sorted"
    and de: "deprecateEach ?s2 now pol r (take ?k sorted) = (Inr (), st')"
    by auto
  let ?dep = "take ?k sorted"
  have wf2: "wf_table ?t2" using w by (simp add: persisted_tables wf_putItem)
  have dp: "distinct ?pubs" using wf2 by (rule distinct_activeVersions)
  from sortVersions_perm[OF so] dp
  have ss: "set sorted = set ?pubs" and ls: "length sorted = length ?pubs" and ds: "distinct sorted"
    by auto
  have d1: "distinct ?dep" using ds by simp
  have d2: "set ?dep \<subseteq> set ?pubs" using ss set_take_subset[of ?k sorted] by auto
  have d3: "int (length ?dep) = min (int (length ?pubs)) (int (length ?pubs) - maxVersions (policy pol))"
    using x ls by auto
  have sub: "set ?dep \<subseteq> set ?t2" using d2 by (auto simp: set_activeVersions)
  have pub: "\<forall>x\<in>set ?dep. status x = Published" using d2 by (auto simp: set_activeVersions)
  from deprecateEach_success[OF wf2 sub d1 pub de]
  have t': "versionsTable st' = map (\<lambda>x. if x \<in> set ?dep then ?upd x else x) ?t2"
    by (simp add: vr)
  let ?F = "\<lambda>x. if x \<in> set ?dep then ?upd x else x"
  have Fk: "\<And>x. apiId (?F x) = apiId x \<and> version (?F x) = version x"
    by (simp add: deprecated_by_policy_fields)
  have get: "getVersion st' (apiId y) (version y) = Some (?F y)" if "y \<in> set ?t2" for y
    unfolding getVersion_def t' getItem_map[of ?F, OF Fk] getItem_wf[OF wf2 that] by simp
  have c5: "\<forall>x\<in>set ?dep. getVersion st' (apiId x) (version x) = Some (?upd x)"
    using get sub by auto
  have c6: "\<forall>x\<in>set ?t2. x \<notin> set ?dep \<longrightarrow> getVersion st' (apiId x) (version x) = Some x"
    using get by auto
  have c4: "\<forall>x\<in>set ?dep. \<forall>y\<in>set ?pubs - set ?dep. semver_le (version x) (version y)"
  proof (cases "2 \<le> length ?pubs")
    case True
    from sortVersions_compare_sorted[OF so True]
    have sw: "sorted_wrt (\<lambda>x y. semver_le (version x) (version y)) sorted" .
    show ?thesis
    proof (intro ballI)
      fix x y assume xd: "x \<in> set ?dep" and y: "y \<in> set ?pubs - set ?dep"
      have "set sorted = set (take ?k sorted) \<union> set (drop ?k sorted)"
        using set_append[of "take ?k sorted" "drop ?k sorted"] by simp
      with y ss have "y \<in> set (drop ?k sorted)" by blast
      from sorted_wrt_take_drop[OF sw xd this] show "semver_le (version x) (version y)" .
    qed
  next
    case False
    with x have "length sorted \<le> ?k" using ls by auto
    then have "?dep = sorted" by simp
    with ss show ?thesis by simp
  qed
  have Q: "length (activeVersions st' ?a)
             = length (filter (\<lambda>x. x \<notin> set ?dep)
                 (filter (\<lambda>x. apiId x = ?a \<and> status x = Published) ?t2))"
  proof -
    have "length (activeVersions st' ?a)
            = length (filter ((\<lambda>x. apiId x = ?a \<and> status x = Published) \<circ> ?F) ?t2)"
      unfolding length_activeVersions t' filter_map by simp
    also have "filter ((\<lambda>x. apiId x = ?a \<and> status x = Published) \<circ> ?F) ?t2
                 = filter (\<lambda>x. (apiId x = ?a \<and> status x = Published) \<and> x \<notin> set ?dep) ?t2"
      by (rule filter_cong[OF refl]) (auto simp: deprecated_by_policy_fields)
    finally show ?thesis by (simp add: conj_commute)
  qed
  have dq: "distinct (filter (\<lambda>x. apiId x = ?a \<and> status x = Published) ?t2)"
    using wf_distinct[OF wf2] by simp
  have sq: "set ?dep \<subseteq> set (filter (\<lambda>x. apiId x = ?a \<and> status x = Published) ?t2)"
    using d2 by (auto simp: set_activeVersions)
  from length_filter_minus[OF dq d1 sq] Q
  have "length (activeVersions st' ?a) = length ?pubs - length ?dep"
    by (simp add: length_activeVersions)
  with d3 have c7: "int (length (activeVersions st' ?a)) = max 0 (maxVersions (policy pol))"
    using x by auto
  from d1 d2 d3 c4 c5 c6 c7 show ?thesis by blast
qed


lemma six_create:
  "createVersion fiveState 1000 (exampleVersion ''2.0.0'' Published []) = (Inr sixthVersion, sixState)"
  by code_simp

lemma six_policy:
  "getLifecyclePolicy fiveState (apiId (exampleVersion ''2.0.0'' Published []))
     = Some (examplePolicy 5 30)"
  by code_simp

lemma six_wf: "wf_table (versionsTable fiveState)"
  by code_simp

lemma six_active:
  "int (length (activeVersions (persisted fiveState sixthVersion) ''orders'')) = 6"
  by code_simp

lemma six_max: "maxVersions (policy (examplePolicy 5 30)) = 5"
  by (simp add: examplePolicy_def)

theorem lifecycle_policy_deprecates_oldest_witness:
  "createVersion fiveState 1000 (exampleVersion ''2.0.0'' Published []) = (Inr sixthVersion, sixState)
   \<and> int (length (activeVersions sixState ''orders'')) = 5
   \<and> (\<exists>dep. distinct dep \<and> int (length dep) = 1
          \<and> set dep \<subseteq> set (activeVersions (persisted fiveState sixthVersion) ''orders''))
   \<and> getVersion sixState ''orders'' ''1.2.0''
       = Some (deprecated_by_policy 1000 (examplePolicy 5 30) ''2.0.0''
                 (exampleVersion ''1.2.0'' Published []))"
proof -
  have a: "apiId (exampleVersion ''2.0.0'' Published []) = ''orders''"
    by (simp add: exampleVersion_def)
  have x: "int (length (activeVersions (persisted fiveState sixthVersion)
                  (apiId (exampleVersion ''2.0.0'' Published []))))
             > maxVersions (policy (examplePolicy 5 30))"
    using six_active by (simp add: a six_max)
  have g: "getVersion sixState ''orders'' ''1.2.0''
       = Some (deprecated_by_policy 1000 (examplePolicy 5 30) ''2.0.0''
                 (exampleVersion ''1.2.0'' Published []))"
    by code_simp
  from lifecycle_policy_deprecates_oldest[OF six_create six_policy six_wf x]
  show ?thesis
    using six_create g six_active by (auto simp: six_max a)
qed

end
